theory Spec2Isabelle
  imports Main
begin

section \<open>The storage schema (init-db.sql)\<close>

text \<open>
  The table \<^verbatim>\<open>companies\<close> of \<^verbatim>\<open>init-db.sql\<close>. Every column but the primary key is
  nullable; SQL's NULL is \<open>None\<close>. A string is a list of characters, one list element per
  character, which is what \<^verbatim>\<open>VARCHAR(n)\<close> counts. The type \<open>'v\<close> stands for PostgreSQL's
  \<^verbatim>\<open>TSVECTOR\<close>, whose values only the built-in \<^verbatim>\<open>to_tsvector\<close> produces; that
  built-in is not part of the repository and is a parameter of everything below. The
  parameter gives the vector of every document; the built-in's own refusals (a vector past
  its size limit) are outside the model, and nothing below says that the write of a long
  document succeeds. The column \<^verbatim>\<open>id\<close> is \<open>id_col\<close> here, \<open>id\<close> being HOL's identity
  function. A date is given as the year, month and day of a literal \<^verbatim>\<open>'YYYY-MM-DD'\<close> of
  the common era; the conversion to \<^verbatim>\<open>DATE\<close> below decides whether it is one.
\<close>

type_synonym sql_text = "string option"

datatype sql_date = Date nat nat nat

record 'v companies_row =
  id_col :: int
  company_number :: sql_text
  company_name :: sql_text
  reg_address_care_of :: sql_text
  reg_address_po_box :: sql_text
  reg_address_line_1 :: sql_text
  reg_address_line_2 :: sql_text
  reg_address_town :: sql_text
  reg_address_county :: sql_text
  reg_address_country :: sql_text
  reg_address_postcode :: sql_text
  company_category :: sql_text
  company_status :: sql_text
  country_of_origin :: sql_text
  incorporation_date :: "sql_date option"
  sic_codes :: sql_text
  search_vector :: "'v option"

text \<open>\<^verbatim>\<open>COALESCE(x, d)\<close> with a literal \<open>d\<close>, and the operator \<^verbatim>\<open>||\<close>, which is NULL as
  soon as one operand is.\<close>

definition coalesce :: "'a option \<Rightarrow> 'a \<Rightarrow> 'a option" where
  "coalesce x d = (case x of None \<Rightarrow> Some d | Some v \<Rightarrow> Some v)"

definition sql_concat :: "sql_text \<Rightarrow> sql_text \<Rightarrow> sql_text" where
  "sql_concat a b =
     (case a of None \<Rightarrow> None
      | Some x \<Rightarrow> (case b of None \<Rightarrow> None | Some y \<Rightarrow> Some (x @ y)))"

text \<open>A call of \<^verbatim>\<open>to_tsvector(config, document)\<close>: the built-in is strict, a NULL document
  gives a NULL vector.\<close>

definition call_to_tsvector ::
  "(string \<Rightarrow> string \<Rightarrow> 'v) \<Rightarrow> string \<Rightarrow> sql_text \<Rightarrow> 'v option" where
  "call_to_tsvector to_tsvector config document =
     (case document of None \<Rightarrow> None | Some d \<Rightarrow> Some (to_tsvector config d))"

text \<open>The trigger function \<^verbatim>\<open>companies_search_vector_update\<close>. The operator \<^verbatim>\<open>||\<close>
  associates to the left, which is the \<open>foldl\<close>.\<close>

definition companies_search_vector_update ::
  "(string \<Rightarrow> string \<Rightarrow> 'v) \<Rightarrow> 'v companies_row \<Rightarrow> 'v companies_row" where
  "companies_search_vector_update to_tsvector NEW =
     NEW\<lparr>search_vector := call_to_tsvector to_tsvector ''english''
       (foldl sql_concat (coalesce (company_name NEW) '''')
         [Some '' '', coalesce (company_number NEW) '''',
          Some '' '', coalesce (reg_address_care_of NEW) '''',
          Some '' '', coalesce (reg_address_po_box NEW) '''',
          Some '' '', coalesce (reg_address_line_1 NEW) '''',
          Some '' '', coalesce (reg_address_line_2 NEW) '''',
          Some '' '', coalesce (reg_address_town NEW) '''',
          Some '' '', coalesce (reg_address_county NEW) '''',
          Some '' '', coalesce (reg_address_country NEW) '''',
          Some '' '', coalesce (reg_address_postcode NEW) '''',
          Some '' '', coalesce (company_category NEW) '''',
          Some '' '', coalesce (company_status NEW) '''',
          Some '' '', coalesce (country_of_origin NEW) '''',
          Some '' '', coalesce (sic_codes NEW) ''''])\<rparr>"

text \<open>
  Storing a value into a \<^verbatim>\<open>VARCHAR(n)\<close> column. The database is PostgreSQL (the compose
  file runs \<^verbatim>\<open>postgres:14\<close>), whose rule for \<^verbatim>\<open>character varying(n)\<close> is the SQL
  standard's (PostgreSQL documentation, 8.3 Character Types): storing a longer string is an
  error, "value too long for type character varying(n)", unless every character past the
  \<open>n\<close>-th is a space, in which case the string is cut to \<open>n\<close> characters. NULL is
  stored as it is. The conversion is part of forming the row, before any trigger runs.
\<close>

datatype db_error =
  String_data_right_truncation nat
| Datetime_field_overflow
| Sequence_generator_limit_exceeded
| Unique_violation string

definition varchar :: "nat \<Rightarrow> sql_text \<Rightarrow> db_error + sql_text" where
  "varchar n v =
     (case v of
        None \<Rightarrow> Inr None
      | Some s \<Rightarrow>
          if length s \<le> n then Inr (Some s)
          else if list_all (\<lambda>c. c = CHR '' '') (drop n s) then Inr (Some (take n s))
          else Inl (String_data_right_truncation n))"

text \<open>
  Storing a value into the \<^verbatim>\<open>DATE\<close> column \<^verbatim>\<open>incorporation_date\<close>: a month outside
  1..12, a day the month does not have (Gregorian leap years) or a year outside 1..5874897
  (there is no year zero, and \<^verbatim>\<open>DATE\<close> ends with the year 5874897) is the error "date/time
  field value out of range".
\<close>

definition leap_year :: "nat \<Rightarrow> bool" where
  "leap_year y = (y mod 4 = 0 \<and> (y mod 100 \<noteq> 0 \<or> y mod 400 = 0))"

definition days_in_month :: "nat \<Rightarrow> nat \<Rightarrow> nat" where
  "days_in_month y m =
     (if m = 2 then (if leap_year y then 29 else 28)
      else if m = 4 \<or> m = 6 \<or> m = 9 \<or> m = 11 then 30
      else 31)"

definition date_col :: "sql_date option \<Rightarrow> db_error + sql_date option" where
  "date_col v =
     (case v of
        None \<Rightarrow> Inr None
      | Some (Date y m d) \<Rightarrow>
          if 1 \<le> y \<and> y \<le> 5874897 \<and> 1 \<le> m \<and> m \<le> 12 \<and> 1 \<le> d \<and> d \<le> days_in_month y m
          then Inr (Some (Date y m d))
          else Inl Datetime_field_overflow)"

text \<open>The conversion of a statement's values to the column types, in the order of the
  columns: \<^verbatim>\<open>company_number VARCHAR(10)\<close>, \<^verbatim>\<open>company_category VARCHAR(100)\<close>,
  \<^verbatim>\<open>company_status VARCHAR(50)\<close>, \<^verbatim>\<open>country_of_origin VARCHAR(50)\<close>,
  \<^verbatim>\<open>incorporation_date DATE\<close>; \<^verbatim>\<open>TEXT\<close> takes every string.\<close>

definition column_types :: "'v companies_row \<Rightarrow> db_error + 'v companies_row" where
  "column_types NEW =
     (case varchar 10 (company_number NEW) of
        Inl e \<Rightarrow> Inl e
      | Inr num \<Rightarrow>
     (case varchar 100 (company_category NEW) of
        Inl e \<Rightarrow> Inl e
      | Inr cat \<Rightarrow>
     (case varchar 50 (company_status NEW) of
        Inl e \<Rightarrow> Inl e
      | Inr st \<Rightarrow>
     (case varchar 50 (country_of_origin NEW) of
        Inl e \<Rightarrow> Inl e
      | Inr origin \<Rightarrow>
     (case date_col (incorporation_date NEW) of
        Inl e \<Rightarrow> Inl e
      | Inr inc \<Rightarrow>
          Inr (NEW\<lparr>company_number := num, company_category := cat,
                   company_status := st, country_of_origin := origin,
                   incorporation_date := inc\<rparr>))))))"

text \<open>
  What happens to a row on its way into the table, for an \<^verbatim>\<open>INSERT\<close> and for an
  \<^verbatim>\<open>UPDATE\<close> alike: the values are converted to the column types, then the trigger
  \<^verbatim>\<open>companies_search_vector_update_trigger\<close> (\<^verbatim>\<open>BEFORE INSERT OR UPDATE ... FOR EACH ROW\<close>)
  runs the trigger function on the converted row, and the row it returns is the one stored.
\<close>

definition before_insert_or_update ::
  "(string \<Rightarrow> string \<Rightarrow> 'v) \<Rightarrow> 'v companies_row \<Rightarrow> db_error + 'v companies_row" where
  "before_insert_or_update to_tsvector vals =
     (case column_types vals of
        Inl e \<Rightarrow> Inl e
      | Inr NEW \<Rightarrow> Inr (companies_search_vector_update to_tsvector NEW))"

text \<open>
  The table's state: its rows, and the last number drawn from the sequence behind
  \<^verbatim>\<open>id SERIAL\<close> (a 4-byte integer: the sequence starts at 1 and ends at 2147483647). A
  failed statement leaves the rows as they were; a number the sequence gave out stays given
  out.
\<close>

record 'v companies_db =
  rows :: "'v companies_row list"
  id_seq :: int

definition empty_db :: "'v companies_db" where
  "empty_db = \<lparr>rows = [], id_seq = 0\<rparr>"

text \<open>\<^verbatim>\<open>UNIQUE\<close> on \<^verbatim>\<open>company_number\<close>: two rows conflict when their numbers are
  equal and not NULL (any number of rows may hold NULL).\<close>

definition number_taken :: "'v companies_row list \<Rightarrow> sql_text \<Rightarrow> bool" where
  "number_taken rs num = (num \<noteq> None \<and> num \<in> set (map company_number rs))"

text \<open>\<^verbatim>\<open>INSERT INTO companies (...) VALUES (...)\<close> with the \<open>id\<close> left to its default:
  \<open>vals\<close> gives the other columns (what it holds as \<open>id_col\<close> is not read). The values
  are converted first, and a value that does not convert ends the statement before a number
  is drawn; then \<^verbatim>\<open>nextval\<close> gives the \<open>id\<close>, or fails at the end of the sequence; then the
  trigger runs, and the keys are checked.\<close>

definition insert_row ::
  "(string \<Rightarrow> string \<Rightarrow> 'v) \<Rightarrow> 'v companies_db \<Rightarrow> 'v companies_row
     \<Rightarrow> db_error option \<times> 'v companies_db" where
  "insert_row to_tsvector db vals =
     (case column_types vals of
        Inl e \<Rightarrow> (Some e, db)
      | Inr converted \<Rightarrow>
          if 2147483647 \<le> id_seq db then (Some Sequence_generator_limit_exceeded, db)
          else
            (let i = id_seq db + 1; db1 = db\<lparr>id_seq := i\<rparr>;
                 NEW = companies_search_vector_update to_tsvector (converted\<lparr>id_col := i\<rparr>)
             in if i \<in> set (map id_col (rows db))
                then (Some (Unique_violation ''companies_pkey''), db1)
                else if number_taken (rows db) (company_number NEW)
                then (Some (Unique_violation ''companies_company_number_key''), db1)
                else (None, db1\<lparr>rows := rows db @ [NEW]\<rparr>)))"

text \<open>\<^verbatim>\<open>UPDATE companies SET (every column but id) = (...) WHERE id = i\<close>: the values are
  converted whether or not a row has that \<open>id\<close>; each row with that \<open>id\<close> is replaced by
  the new values, keeping its \<open>id\<close>, after the trigger has run on it; the new number must
  not be held by a row that stays.\<close>

definition update_row ::
  "(string \<Rightarrow> string \<Rightarrow> 'v) \<Rightarrow> 'v companies_db \<Rightarrow> int \<Rightarrow> 'v companies_row
     \<Rightarrow> db_error option \<times> 'v companies_db" where
  "update_row to_tsvector db i vals =
     (case column_types vals of
        Inl e \<Rightarrow> (Some e, db)
      | Inr converted \<Rightarrow>
          if i \<notin> set (map id_col (rows db)) then (None, db)
          else
            (let NEW = companies_search_vector_update to_tsvector (converted\<lparr>id_col := i\<rparr>)
             in if number_taken (filter (\<lambda>r. id_col r \<noteq> i) (rows db)) (company_number NEW)
                then (Some (Unique_violation ''companies_company_number_key''), db)
                else (None, db\<lparr>rows := map (\<lambda>r. if id_col r = i then NEW else r) (rows db)\<rparr>)))"

text \<open>The text a column contributes to the search document: its value, or nothing when
  it is NULL.\<close>

definition text_of :: "sql_text \<Rightarrow> string" where
  "text_of x = (case x of None \<Rightarrow> [] | Some s \<Rightarrow> s)"

text \<open>A row whose \<open>search_vector\<close> is the one the trigger function computes from the
  row's own columns.\<close>

definition search_vector_current ::
  "(string \<Rightarrow> string \<Rightarrow> 'v) \<Rightarrow> 'v companies_row \<Rightarrow> bool" where
  "search_vector_current to_tsvector r = (companies_search_vector_update to_tsvector r = r)"

text \<open>The values of a statement that gives no column at all: every column NULL.\<close>

definition null_vals :: "'v companies_row" where
  "null_vals =
     \<lparr>id_col = 0, company_number = None, company_name = None,
      reg_address_care_of = None, reg_address_po_box = None,
      reg_address_line_1 = None, reg_address_line_2 = None,
      reg_address_town = None, reg_address_county = None,
      reg_address_country = None, reg_address_postcode = None,
      company_category = None, company_status = None,
      country_of_origin = None, incorporation_date = None,
      sic_codes = None, search_vector = None\<rparr>"

text \<open>
  The constraints of the table as properties of a state: \<^verbatim>\<open>PRIMARY KEY\<close> on \<open>id\<close> and
  \<^verbatim>\<open>UNIQUE\<close> on \<open>company_number\<close> (NULLs apart); every stored number within
  \<^verbatim>\<open>VARCHAR(10)\<close>; every \<open>id\<close> drawn from the sequence.
\<close>

definition numbers :: "'v companies_row list \<Rightarrow> string list" where
  "numbers rs = concat (map (\<lambda>r. case company_number r of None \<Rightarrow> [] | Some k \<Rightarrow> [k]) rs)"

definition unique_ok :: "'v companies_db \<Rightarrow> bool" where
  "unique_ok db = (distinct (map id_col (rows db)) \<and> distinct (numbers (rows db)))"

definition numbers_fit :: "'v companies_db \<Rightarrow> bool" where
  "numbers_fit db = list_all (\<lambda>k. length k \<le> 10) (numbers (rows db))"

definition ids_from_seq :: "'v companies_db \<Rightarrow> bool" where
  "ids_from_seq db = list_all (\<lambda>r. id_col r \<le> id_seq db) (rows db)"

definition table_ok :: "'v companies_db \<Rightarrow> bool" where
  "table_ok db = (unique_ok db \<and> numbers_fit db \<and> ids_from_seq db)"

text \<open>A record the table already accounts for, so that writing it adds no row: the column
  types refuse it, or the sequence has no number left, or the number it would be stored under
  is in the table.\<close>

definition accounted :: "'v companies_db \<Rightarrow> 'v companies_row \<Rightarrow> bool" where
  "accounted db vals =
     ((\<exists>e. column_types vals = Inl e) \<or>
      2147483647 \<le> id_seq db \<or>
      (\<exists>k. varchar 10 (company_number vals) = Inr (Some k) \<and> k \<in> set (numbers (rows db))))"

section \<open>The upsert sink and the lookup\<close>

text \<open>
  Modelled from the spec: the Upsert Sink's write (section 4.4: "performs an
  upsert-by-companyNumber against the storage collaborator (insert if absent, overwrite
  attributes if present), lets the collaborator recompute searchText"). The statement the
  backend sends is not among the sources; the model is built from the two writes of the
  schema above. A record's \<open>companyNumber\<close> is its \<open>company_number\<close> column.
\<close>

definition upsert ::
  "(string \<Rightarrow> string \<Rightarrow> 'v) \<Rightarrow> 'v companies_db \<Rightarrow> 'v companies_row
     \<Rightarrow> db_error option \<times> 'v companies_db" where
  "upsert to_tsvector db vals =
     (case find (\<lambda>r. company_number vals \<noteq> None \<and> company_number r = company_number vals)
             (rows db) of
        None \<Rightarrow> insert_row to_tsvector db vals
      | Some r \<Rightarrow> update_row to_tsvector db (id_col r) vals)"

text \<open>
  Modelled from the spec: one ingestion of a dataset, record after record in parser order
  (section 4.4). A failure of one row is absorbed and the run goes on (section 7,
  \<open>StorageRowFailure\<close>: "recoverable, counted not surfaced").
\<close>

definition ingest ::
  "(string \<Rightarrow> string \<Rightarrow> 'v) \<Rightarrow> 'v companies_db \<Rightarrow> 'v companies_row list
     \<Rightarrow> 'v companies_db" where
  "ingest to_tsvector db dataset = foldl (\<lambda>d vals. snd (upsert to_tsvector d vals)) db dataset"

datatype api_error = AlreadyRunning | InvalidArgument | NotFound

text \<open>
  Modelled from the spec: \<open>CompanyLookup\<close> (section 4.6: "fails with NotFound if no record
  has that key") and its HTTP answer (section 6: "200 OK with CompanyRecord, or 404 Not
  Found"). The backend's handler is not among the sources.
\<close>

definition CompanyLookup :: "'v companies_db \<Rightarrow> string \<Rightarrow> api_error + 'v companies_row" where
  "CompanyLookup db companyNumber =
     (case find (\<lambda>r. company_number r = Some companyNumber) (rows db) of
        None \<Rightarrow> Inl NotFound
      | Some r \<Rightarrow> Inr r)"

definition get_company :: "'v companies_db \<Rightarrow> string \<Rightarrow> nat \<times> 'v companies_row option" where
  "get_company db companyNumber =
     (case CompanyLookup db companyNumber of
        Inl e \<Rightarrow> (404, None)
      | Inr r \<Rightarrow> (200, Some r))"

section \<open>The ingestion job controller\<close>

text \<open>
  Modelled from the spec: the \<open>IngestJob\<close> of section 3 and \<open>StartIngestion\<close> of section 4.1
  ("fails with AlreadyRunning if current status is Downloading or Processing; otherwise
  atomically transitions to Downloading, records startedAt, zeroes counters"). The backend
  that holds the job is not among the sources. The check and the transition are one atomic
  operation, so a call is one step from a job to the answer and the job after it; launching
  the pipeline changes nothing in the job, and the call does not wait for it. A timestamp
  is a number.
\<close>

datatype job_status = Idle | Downloading | Processing | Completed | Failed

record ingest_job =
  status :: job_status
  startedAt :: "nat option"
  totalRecords :: nat
  processedRecords :: nat
  errorRecords :: nat
  lastError :: "string option"

definition active :: "ingest_job \<Rightarrow> bool" where
  "active j = (status j = Downloading \<or> status j = Processing)"

definition StartIngestion :: "nat \<Rightarrow> ingest_job \<Rightarrow> (api_error + unit) \<times> ingest_job" where
  "StartIngestion now j =
     (if status j = Downloading \<or> status j = Processing then (Inl AlreadyRunning, j)
      else (Inr (), j\<lparr>status := Downloading, startedAt := Some now,
                      totalRecords := 0, processedRecords := 0, errorRecords := 0\<rparr>))"

text \<open>
  Modelled from the spec: what can happen to the job while a run stays active. Concurrent
  callers and the pipeline take their atomic steps in some order: a start request, the
  fetcher delivering the stream (section 4.1: \<open>Downloading \<rightarrow> Processing\<close>), the sink
  flushing a batch (section 4.4: the batch size is added to \<open>processedRecords\<close>).
  \<open>answers\<close> lists what the start requests were told, in that order.
\<close>

datatype controller_event = Start_request nat | Fetch_delivered | Batch_flushed nat

fun is_start :: "controller_event \<Rightarrow> bool" where
  "is_start (Start_request now) = True"
| "is_start Fetch_delivered = False"
| "is_start (Batch_flushed n) = False"

fun answers :: "ingest_job \<Rightarrow> controller_event list \<Rightarrow> (api_error + unit) list" where
  "answers j [] = []"
| "answers j (Start_request now # evs) =
     fst (StartIngestion now j) # answers (snd (StartIngestion now j)) evs"
| "answers j (Fetch_delivered # evs) =
     answers (if status j = Downloading then j\<lparr>status := Processing\<rparr> else j) evs"
| "answers j (Batch_flushed n # evs) =
     answers (if status j = Processing
              then j\<lparr>processedRecords := processedRecords j + n\<rparr> else j) evs"

section \<open>The client's address formatting (App.js)\<close>

text \<open>
  \<^verbatim>\<open>formatAddress\<close> is the same function in \<^verbatim>\<open>react-native-app/App.js\<close> and in
  \<^verbatim>\<open>uk-companies-app/App.js\<close>. Its argument is \<^verbatim>\<open>company.registered_office_address\<close>
  of the server's JSON: missing, \<^verbatim>\<open>null\<close>, or an object whose fields are strings, each
  missing or \<^verbatim>\<open>null\<close> (\<open>None\<close>) or present. A string is truthy when it is not empty.
\<close>

record address =
  care_of :: "string option"
  po_box :: "string option"
  address_line_1 :: "string option"
  address_line_2 :: "string option"
  town :: "string option"
  county :: "string option"
  country :: "string option"
  postcode :: "string option"

datatype 'a js_ref = Undefined | Null | Object 'a

text \<open>\<^verbatim>\<open>Array.prototype.join\<close> on an array of strings.\<close>

fun join :: "string \<Rightarrow> string list \<Rightarrow> string" where
  "join sep [] = []"
| "join sep [x] = x"
| "join sep (x # y # ys) = x @ sep @ join sep (y # ys)"

text \<open>One line \<^verbatim>\<open>if (address.f) addressParts.push(`prefix${address.f}`)\<close>.\<close>

definition push_if :: "string option \<Rightarrow> string \<Rightarrow> string list \<Rightarrow> string list" where
  "push_if field prefix addressParts =
     (case field of
        None \<Rightarrow> addressParts
      | Some s \<Rightarrow> if s \<noteq> [] then addressParts @ [prefix @ s] else addressParts)"

definition formatAddress :: "address js_ref \<Rightarrow> string" where
  "formatAddress a =
     (case a of
        Undefined \<Rightarrow> ''N/A''
      | Null \<Rightarrow> ''N/A''
      | Object address \<Rightarrow>
          (let addressParts = [];
               addressParts = push_if (care_of address) ''c/o '' addressParts;
               addressParts = push_if (po_box address) ''PO Box '' addressParts;
               addressParts = push_if (address_line_1 address) [] addressParts;
               addressParts = push_if (address_line_2 address) [] addressParts;
               addressParts = push_if (town address) [] addressParts;
               addressParts = push_if (county address) [] addressParts;
               addressParts = push_if (country address) [] addressParts;
               addressParts = push_if (postcode address) [] addressParts
           in join [CHR 0x0A] addressParts))"

section \<open>Example data\<close>

text \<open>A stand-in for \<^verbatim>\<open>to_tsvector\<close> in the concrete examples: the vector of a document
  is the document itself.\<close>

definition plain_tsvector :: "string \<Rightarrow> string \<Rightarrow> string" where
  "plain_tsvector config document = document"

definition acme_vals :: "string companies_row" where
  "acme_vals = null_vals\<lparr>company_number := Some ''00000001'',
                         company_name := Some ''Acme Ltd'',
                         search_vector := Some ''set by the caller''\<rparr>"

definition acme_renamed :: "string companies_row" where
  "acme_renamed = null_vals\<lparr>company_number := Some ''00000001'',
                            company_name := Some ''Acme Holdings''\<rparr>"

definition acme_db :: "string companies_db" where
  "acme_db = snd (insert_row plain_tsvector empty_db acme_vals)"

text \<open>The row the table holds for that company, under a given name.\<close>

definition acme_stored :: "string \<Rightarrow> string companies_row" where
  "acme_stored name =
     null_vals\<lparr>id_col := 1, company_number := Some ''00000001'',
               company_name := Some name,
               search_vector := Some (name @ '' 00000001            '')\<rparr>"

text \<open>A number of eleven characters, the last one a space.\<close>

definition padded_vals :: "string companies_row" where
  "padded_vals = null_vals\<lparr>company_number := Some ''0123456789 ''\<rparr>"

text \<open>A number of eleven characters, none of them a space.\<close>

definition long_vals :: "string companies_row" where
  "long_vals = null_vals\<lparr>company_number := Some ''00000000001''\<rparr>"

text \<open>An address with one field only.\<close>

definition bob_address :: address where
  "bob_address =
     \<lparr>care_of = Some ''Bob'', po_box = None, address_line_1 = None, address_line_2 = None,
      town = None, county = None, country = None, postcode = None\<rparr>"

text \<open>The job before any run, and a job in the middle of one.\<close>

definition idle_job :: ingest_job where
  "idle_job =
     \<lparr>status = Idle, startedAt = None, totalRecords = 0, processedRecords = 0,
      errorRecords = 0, lastError = None\<rparr>"

definition busy_job :: ingest_job where
  "busy_job =
     \<lparr>status = Processing, startedAt = Some 5, totalRecords = 300, processedRecords = 100,
      errorRecords = 2, lastError = None\<rparr>"

section \<open>Properties of the storage schema\<close>

subsection \<open>The trigger function\<close>

lemma coalesce_empty: "coalesce x [] = Some (text_of x)"
  by (simp add: coalesce_def text_of_def split: option.splits)

lemma sql_concat_Some: "sql_concat (Some a) (Some b) = Some (a @ b)"
  by (simp add: sql_concat_def)

lemma trigger_document:
  "search_vector (companies_search_vector_update to_tsvector NEW) =
     Some (to_tsvector ''english''
       (text_of (company_name NEW) @ '' '' @ text_of (company_number NEW) @ '' '' @
        text_of (reg_address_care_of NEW) @ '' '' @ text_of (reg_address_po_box NEW) @ '' '' @
        text_of (reg_address_line_1 NEW) @ '' '' @ text_of (reg_address_line_2 NEW) @ '' '' @
        text_of (reg_address_town NEW) @ '' '' @ text_of (reg_address_county NEW) @ '' '' @
        text_of (reg_address_country NEW) @ '' '' @ text_of (reg_address_postcode NEW) @ '' '' @
        text_of (company_category NEW) @ '' '' @ text_of (company_status NEW) @ '' '' @
        text_of (country_of_origin NEW) @ '' '' @ text_of (sic_codes NEW)))"
  by (simp add: companies_search_vector_update_def call_to_tsvector_def coalesce_empty
        sql_concat_Some)

lemma trigger_ignores_search_vector:
  "companies_search_vector_update to_tsvector (NEW\<lparr>search_vector := x\<rparr>) =
     companies_search_vector_update to_tsvector NEW"
  by (simp add: companies_search_vector_update_def)

lemma trigger_keeps_columns:
  "id_col (companies_search_vector_update to_tsvector NEW) = id_col NEW"
  "company_number (companies_search_vector_update to_tsvector NEW) = company_number NEW"
  by (simp_all add: companies_search_vector_update_def)

lemma trigger_current:
  "search_vector_current to_tsvector (companies_search_vector_update to_tsvector NEW)"
  by (simp add: search_vector_current_def companies_search_vector_update_def)

subsection \<open>The column types\<close>

lemma varchar_cases:
  obtains (null) "v = None" "varchar n v = Inr None"
  | (fits) s where "v = Some s" "length s \<le> n" "varchar n v = Inr (Some s)"
  | (cut) s where "v = Some s" "n < length s" "list_all (\<lambda>c. c = CHR '' '') (drop n s)"
      "varchar n v = Inr (Some (take n s))"
  | (long) s where "v = Some s" "n < length s" "\<not> list_all (\<lambda>c. c = CHR '' '') (drop n s)"
      "varchar n v = Inl (String_data_right_truncation n)"
  by (cases v) (auto simp: varchar_def not_le, fastforce)

lemma varchar_Inr_length:
  assumes "varchar n v = Inr (Some k)"
  shows "length k \<le> n"
  using assms by (cases n v rule: varchar_cases) auto

lemma varchar_fits: "length s \<le> n \<Longrightarrow> varchar n (Some s) = Inr (Some s)"
  by (simp add: varchar_def)

lemma varchar_None_iff: "varchar n v = Inr None \<longleftrightarrow> v = None"
  by (cases n v rule: varchar_cases) auto

lemma column_types_Inr:
  assumes "column_types vals = Inr NEW"
  obtains num cat st origin inc where
    "varchar 10 (company_number vals) = Inr num"
    "varchar 100 (company_category vals) = Inr cat"
    "varchar 50 (company_status vals) = Inr st"
    "varchar 50 (country_of_origin vals) = Inr origin"
    "date_col (incorporation_date vals) = Inr inc"
    "NEW = vals\<lparr>company_number := num, company_category := cat,
                 company_status := st, country_of_origin := origin,
                 incorporation_date := inc\<rparr>"
  using assms by (auto simp: column_types_def split: sum.splits)

lemma column_types_number:
  assumes "column_types vals = Inr NEW"
  shows "varchar 10 (company_number vals) = Inr (company_number NEW)"
    and "id_col NEW = id_col vals"
  using assms by (auto elim!: column_types_Inr)

lemma column_types_Inl_number:
  assumes "varchar 10 (company_number vals) = Inl e"
  shows "column_types vals = Inl e"
  using assms by (simp add: column_types_def)

lemma column_types_search_vector:
  "column_types (vals\<lparr>search_vector := x\<rparr>) =
     (case column_types vals of Inl e \<Rightarrow> Inl e | Inr NEW \<Rightarrow> Inr (NEW\<lparr>search_vector := x\<rparr>))"
  by (simp add: column_types_def split: sum.splits)

lemma column_types_id_col:
  "column_types (vals\<lparr>id_col := i\<rparr>) =
     (case column_types vals of Inl e \<Rightarrow> Inl e | Inr NEW \<Rightarrow> Inr (NEW\<lparr>id_col := i\<rparr>))"
  by (simp add: column_types_def split: sum.splits)

lemma column_types_null_vals: "column_types null_vals = Inr null_vals"
  by (simp add: column_types_def varchar_def date_col_def null_vals_def)

lemma before_write_id_col:
  assumes "column_types vals = Inr converted"
  shows "before_insert_or_update to_tsvector (vals\<lparr>id_col := i\<rparr>) =
           Inr (companies_search_vector_update to_tsvector (converted\<lparr>id_col := i\<rparr>))"
  using assms by (simp add: before_insert_or_update_def column_types_id_col)

lemma before_write_search_vector:
  "before_insert_or_update to_tsvector (vals\<lparr>search_vector := x\<rparr>) =
     before_insert_or_update to_tsvector vals"
  by (simp add: before_insert_or_update_def column_types_search_vector
        trigger_ignores_search_vector split: sum.splits)

lemma before_write_Inr:
  assumes "before_insert_or_update to_tsvector vals = Inr NEW"
  obtains NEW0 where "column_types vals = Inr NEW0"
    "NEW = companies_search_vector_update to_tsvector NEW0"
  using assms by (auto simp: before_insert_or_update_def split: sum.splits)

lemma before_write_current:
  assumes "before_insert_or_update to_tsvector vals = Inr NEW"
  shows "search_vector_current to_tsvector NEW"
  using assms by (auto elim!: before_write_Inr simp: trigger_current)

lemma before_write_number:
  assumes "before_insert_or_update to_tsvector vals = Inr NEW"
  shows "varchar 10 (company_number vals) = Inr (company_number NEW)"
    and "id_col NEW = id_col vals"
  using assms by (auto elim!: before_write_Inr simp: trigger_keeps_columns column_types_number)

subsection \<open>The two writes\<close>

lemma insert_row_cases:
  obtains
    (type_error) e where
      "column_types vals = Inl e"
      "insert_row to_tsvector db vals = (Some e, db)"
  | (exhausted) converted where
      "column_types vals = Inr converted"
      "2147483647 \<le> id_seq db"
      "insert_row to_tsvector db vals = (Some Sequence_generator_limit_exceeded, db)"
  | (pkey) NEW where
      "before_insert_or_update to_tsvector (vals\<lparr>id_col := id_seq db + 1\<rparr>) = Inr NEW"
      "id_seq db < 2147483647"
      "id_seq db + 1 \<in> set (map id_col (rows db))"
      "insert_row to_tsvector db vals =
         (Some (Unique_violation ''companies_pkey''), db\<lparr>id_seq := id_seq db + 1\<rparr>)"
  | (number) NEW where
      "before_insert_or_update to_tsvector (vals\<lparr>id_col := id_seq db + 1\<rparr>) = Inr NEW"
      "id_seq db < 2147483647"
      "id_seq db + 1 \<notin> set (map id_col (rows db))"
      "number_taken (rows db) (company_number NEW)"
      "insert_row to_tsvector db vals =
         (Some (Unique_violation ''companies_company_number_key''),
          db\<lparr>id_seq := id_seq db + 1\<rparr>)"
  | (stored) NEW where
      "before_insert_or_update to_tsvector (vals\<lparr>id_col := id_seq db + 1\<rparr>) = Inr NEW"
      "id_seq db < 2147483647"
      "id_seq db + 1 \<notin> set (map id_col (rows db))"
      "\<not> number_taken (rows db) (company_number NEW)"
      "insert_row to_tsvector db vals =
         (None, db\<lparr>id_seq := id_seq db + 1, rows := rows db @ [NEW]\<rparr>)"
proof (cases "column_types vals")
  case (Inl e)
  then show thesis
    by (intro type_error[of e]) (simp_all add: insert_row_def)
next
  case (Inr converted)
  show thesis
  proof (cases "2147483647 \<le> id_seq db")
    case True
    with Inr show thesis
      by (intro exhausted[of converted]) (simp_all add: insert_row_def)
  next
    case room: False
    let ?NEW = "companies_search_vector_update to_tsvector
                  (converted\<lparr>id_col := id_seq db + 1\<rparr>)"
    have before: "before_insert_or_update to_tsvector (vals\<lparr>id_col := id_seq db + 1\<rparr>) =
                    Inr ?NEW"
      using Inr by (rule before_write_id_col)
    from room have less: "id_seq db < 2147483647"
      by simp
    show thesis
    proof (cases "id_seq db + 1 \<in> set (map id_col (rows db))")
      case True
      with Inr room before less show thesis
        by (intro pkey[of ?NEW]) (simp_all add: insert_row_def Let_def)
    next
      case fresh: False
      show thesis
      proof (cases "number_taken (rows db) (company_number ?NEW)")
        case True
        with Inr room fresh before less show thesis
          by (intro number[of ?NEW]) (simp_all add: insert_row_def Let_def)
      next
        case False
        with Inr room fresh before less show thesis
          by (intro stored[of ?NEW]) (simp_all add: insert_row_def Let_def)
      qed
    qed
  qed
qed

lemma update_row_cases:
  obtains
    (type_error) e where
      "column_types vals = Inl e"
      "update_row to_tsvector db i vals = (Some e, db)"
  | (no_row) converted where
      "column_types vals = Inr converted"
      "i \<notin> set (map id_col (rows db))"
      "update_row to_tsvector db i vals = (None, db)"
  | (number) NEW where "i \<in> set (map id_col (rows db))"
      "before_insert_or_update to_tsvector (vals\<lparr>id_col := i\<rparr>) = Inr NEW"
      "number_taken (filter (\<lambda>r. id_col r \<noteq> i) (rows db)) (company_number NEW)"
      "update_row to_tsvector db i vals =
         (Some (Unique_violation ''companies_company_number_key''), db)"
  | (stored) NEW where "i \<in> set (map id_col (rows db))"
      "before_insert_or_update to_tsvector (vals\<lparr>id_col := i\<rparr>) = Inr NEW"
      "\<not> number_taken (filter (\<lambda>r. id_col r \<noteq> i) (rows db)) (company_number NEW)"
      "update_row to_tsvector db i vals =
         (None, db\<lparr>rows := map (\<lambda>r. if id_col r = i then NEW else r) (rows db)\<rparr>)"
proof (cases "column_types vals")
  case (Inl e)
  then show thesis
    by (intro type_error[of e]) (simp_all add: update_row_def)
next
  case (Inr converted)
  show thesis
  proof (cases "i \<in> set (map id_col (rows db))")
    case False
    with Inr show thesis
      by (intro no_row[of converted]) (simp_all add: update_row_def)
  next
    case present: True
    let ?NEW = "companies_search_vector_update to_tsvector (converted\<lparr>id_col := i\<rparr>)"
    have before: "before_insert_or_update to_tsvector (vals\<lparr>id_col := i\<rparr>) = Inr ?NEW"
      using Inr by (rule before_write_id_col)
    show thesis
    proof (cases "number_taken (filter (\<lambda>r. id_col r \<noteq> i) (rows db)) (company_number ?NEW)")
      case True
      with Inr present before show thesis
        by (intro number[of ?NEW]) (simp_all add: update_row_def Let_def)
    next
      case False
      with Inr present before show thesis
        by (intro stored[of ?NEW]) (simp_all add: update_row_def Let_def)
    qed
  qed
qed

lemma insert_row_search_vector:
  "insert_row to_tsvector db (vals\<lparr>search_vector := x\<rparr>) = insert_row to_tsvector db vals"
proof (cases "column_types vals")
  case (Inl e)
  then show ?thesis
    by (simp add: insert_row_def column_types_search_vector)
next
  case (Inr converted)
  have "companies_search_vector_update to_tsvector (converted\<lparr>search_vector := x, id_col := i\<rparr>) =
          companies_search_vector_update to_tsvector (converted\<lparr>id_col := i\<rparr>)" for i
    by (simp add: companies_search_vector_update_def)
  with Inr show ?thesis
    by (simp add: insert_row_def column_types_search_vector)
qed

lemma update_row_search_vector:
  "update_row to_tsvector db i (vals\<lparr>search_vector := x\<rparr>) = update_row to_tsvector db i vals"
proof (cases "column_types vals")
  case (Inl e)
  then show ?thesis
    by (simp add: update_row_def column_types_search_vector)
next
  case (Inr converted)
  have "companies_search_vector_update to_tsvector (converted\<lparr>search_vector := x, id_col := i\<rparr>) =
          companies_search_vector_update to_tsvector (converted\<lparr>id_col := i\<rparr>)"
    by (simp add: companies_search_vector_update_def)
  with Inr show ?thesis
    by (simp add: update_row_def column_types_search_vector)
qed

lemma insert_row_stores_current:
  assumes "fst (insert_row to_tsvector db vals) = None"
  shows "\<exists>NEW. rows (snd (insert_row to_tsvector db vals)) = rows db @ [NEW] \<and>
           companies_search_vector_update to_tsvector NEW = NEW"
proof (cases rule: insert_row_cases[where to_tsvector = to_tsvector and vals = vals and db = db])
  case (stored NEW)
  from stored(1) have "search_vector_current to_tsvector NEW"
    by (rule before_write_current)
  with stored(5) show ?thesis
    by (simp add: search_vector_current_def)
qed (use assms in simp_all)

lemma update_row_stores_current:
  assumes "r \<in> set (rows (snd (update_row to_tsvector db i vals)))"
  shows "r \<in> set (rows db) \<or> companies_search_vector_update to_tsvector r = r"
proof (cases rule: update_row_cases[where to_tsvector = to_tsvector and vals = vals and db = db
      and i = i])
  case (stored NEW)
  from stored(2) have "search_vector_current to_tsvector NEW"
    by (rule before_write_current)
  with stored(4) assms show ?thesis
    by (auto simp: search_vector_current_def split: if_splits)
qed (use assms in simp_all)

subsection \<open>Concrete runs\<close>

lemma varchar_eval:
  "varchar n None = Inr None"
  "length s \<le> n \<Longrightarrow> varchar n (Some s) = Inr (Some s)"
  by (simp_all add: varchar_def)

lemma acme_inserted:
  "insert_row plain_tsvector empty_db acme_vals =
     (None, \<lparr>rows = [acme_stored ''Acme Ltd''], id_seq = 1\<rparr>)"
  by (simp add: insert_row_def Let_def column_types_def varchar_eval date_col_def
        companies_search_vector_update_def call_to_tsvector_def coalesce_def sql_concat_def
        number_taken_def empty_db_def acme_vals_def null_vals_def plain_tsvector_def
        acme_stored_def)

lemma acme_db_eq: "acme_db = \<lparr>rows = [acme_stored ''Acme Ltd''], id_seq = 1\<rparr>"
  by (simp add: acme_db_def acme_inserted)

lemma acme_updated:
  "update_row plain_tsvector acme_db 1 acme_renamed =
     (None, \<lparr>rows = [acme_stored ''Acme Holdings''], id_seq = 1\<rparr>)"
  by (simp add: acme_db_eq update_row_def Let_def column_types_def date_col_def
        varchar_eval companies_search_vector_update_def call_to_tsvector_def coalesce_def
        sql_concat_def number_taken_def acme_renamed_def null_vals_def plain_tsvector_def
        acme_stored_def)

subsection \<open>C3: the search vector is recomputed on every write\<close>

text \<open>
  Claim C3. On every insert and every update of a row of \<open>companies\<close> the stored
  \<open>search_vector\<close> is computed by the storage layer from the row's textual columns: it is
  \<^verbatim>\<open>to_tsvector('english', d)\<close>, where \<open>d\<close> joins, with one space between neighbours, the
  name, the number, the eight address columns, the category, the status, the country of
  origin and the SIC codes, a NULL column counting as the empty text. What the caller puts
  into \<open>search_vector\<close> has no effect on either write. The row an insert adds, and every
  row an update leaves changed, carries the vector of its own columns.
\<close>

theorem search_vector_recomputed_on_write:
  "search_vector (companies_search_vector_update to_tsvector NEW) =
     Some (to_tsvector ''english''
       (text_of (company_name NEW) @ '' '' @ text_of (company_number NEW) @ '' '' @
        text_of (reg_address_care_of NEW) @ '' '' @ text_of (reg_address_po_box NEW) @ '' '' @
        text_of (reg_address_line_1 NEW) @ '' '' @ text_of (reg_address_line_2 NEW) @ '' '' @
        text_of (reg_address_town NEW) @ '' '' @ text_of (reg_address_county NEW) @ '' '' @
        text_of (reg_address_country NEW) @ '' '' @ text_of (reg_address_postcode NEW) @ '' '' @
        text_of (company_category NEW) @ '' '' @ text_of (company_status NEW) @ '' '' @
        text_of (country_of_origin NEW) @ '' '' @ text_of (sic_codes NEW)))
   \<and> insert_row to_tsvector db (vals\<lparr>search_vector := x\<rparr>) = insert_row to_tsvector db vals
   \<and> update_row to_tsvector db i (vals\<lparr>search_vector := x\<rparr>) = update_row to_tsvector db i vals
   \<and> (fst (insert_row to_tsvector db vals) = None \<longrightarrow>
        (\<exists>r. rows (snd (insert_row to_tsvector db vals)) = rows db @ [r] \<and>
             companies_search_vector_update to_tsvector r = r))
   \<and> (\<forall>r \<in> set (rows (snd (update_row to_tsvector db i vals))).
        r \<in> set (rows db) \<or> companies_search_vector_update to_tsvector r = r)"
  using trigger_document insert_row_search_vector update_row_search_vector
    insert_row_stores_current update_row_stores_current
  by blast

theorem search_vector_recomputed_on_write_witness:
  "fst (insert_row plain_tsvector empty_db acme_vals) = None
   \<and> (\<exists>r. rows (snd (insert_row plain_tsvector empty_db acme_vals)) = rows empty_db @ [r] \<and>
          companies_search_vector_update plain_tsvector r = r \<and>
          search_vector r = Some ''Acme Ltd 00000001            '')
   \<and> acme_stored ''Acme Holdings''
        \<in> set (rows (snd (update_row plain_tsvector acme_db 1 acme_renamed)))
   \<and> acme_stored ''Acme Holdings'' \<notin> set (rows acme_db)
   \<and> companies_search_vector_update plain_tsvector (acme_stored ''Acme Holdings'') =
        acme_stored ''Acme Holdings''"
proof -
  have ins: "fst (insert_row plain_tsvector empty_db acme_vals) = None"
    by (simp add: acme_inserted)
  have upd: "acme_stored ''Acme Holdings''
               \<in> set (rows (snd (update_row plain_tsvector acme_db 1 acme_renamed)))"
    by (simp add: acme_updated)
  have old: "acme_stored ''Acme Holdings'' \<notin> set (rows acme_db)"
    by (simp add: acme_db_eq acme_stored_def null_vals_def)
  note main = search_vector_recomputed_on_write
  from main[where to_tsvector = plain_tsvector and db = empty_db and vals = acme_vals] ins
  obtain r where r: "rows (snd (insert_row plain_tsvector empty_db acme_vals)) = rows empty_db @ [r]"
    "companies_search_vector_update plain_tsvector r = r"
    by blast
  from r(1) have "r = acme_stored ''Acme Ltd''"
    by (simp add: acme_inserted)
  then have "search_vector r = Some ''Acme Ltd 00000001            ''"
    by (simp add: acme_stored_def)
  moreover from main[where to_tsvector = plain_tsvector and db = acme_db and vals = acme_renamed
      and i = 1] upd old
  have "companies_search_vector_update plain_tsvector (acme_stored ''Acme Holdings'') =
          acme_stored ''Acme Holdings''"
    by blast
  ultimately show ?thesis
    using ins upd old r by blast
qed

subsection \<open>C9: the trigger is total over partial records\<close>



lemma ids_from_seq_fresh:
  assumes "ids_from_seq db"
  shows "id_seq db + 1 \<notin> set (map id_col (rows db))"
proof
  assume "id_seq db + 1 \<in> set (map id_col (rows db))"
  then obtain r where "r \<in> set (rows db)" "id_col r = id_seq db + 1"
    by auto
  with assms show False
    by (auto simp: ids_from_seq_def list_all_iff)
qed




lemma insert_row_sequence_exhausted:
  assumes "2147483647 \<le> id_seq db"
  shows "insert_row to_tsvector db null_vals = (Some Sequence_generator_limit_exceeded, db)"
  using assms by (simp add: insert_row_def column_types_null_vals)




subsection \<open>The stored number is within VARCHAR(10)\<close>

lemma numbers_fit_iff:
  "numbers_fit db \<longleftrightarrow> (\<forall>r \<in> set (rows db). \<forall>k. company_number r = Some k \<longrightarrow> length k \<le> 10)"
  by (auto simp: numbers_fit_def numbers_def list_all_iff split: option.splits)

lemma before_write_fits:
  assumes "before_insert_or_update to_tsvector vals = Inr NEW"
  shows "length (text_of (company_number NEW)) \<le> 10"
proof (cases "company_number NEW")
  case None
  then show ?thesis by (simp add: text_of_def)
next
  case (Some k)
  with before_write_number(1)[OF assms] have "varchar 10 (company_number vals) = Inr (Some k)"
    by simp
  then have "length k \<le> 10"
    by (rule varchar_Inr_length)
  with Some show ?thesis by (simp add: text_of_def)
qed

lemma insert_row_stored_fits:
  assumes "fst (insert_row to_tsvector db vals) = None"
  shows "\<exists>r. rows (snd (insert_row to_tsvector db vals)) = rows db @ [r] \<and>
           length (text_of (company_number r)) \<le> 10"
proof (cases rule: insert_row_cases[where to_tsvector = to_tsvector and vals = vals and db = db])
  case (stored NEW)
  with before_write_fits[OF stored(1)] show ?thesis
    by simp
qed (use assms in simp_all)

lemma update_row_stored_fits:
  assumes "r \<in> set (rows (snd (update_row to_tsvector db i vals)))"
  shows "r \<in> set (rows db) \<or> length (text_of (company_number r)) \<le> 10"
proof (cases rule: update_row_cases[where to_tsvector = to_tsvector and vals = vals and db = db
      and i = i])
  case (stored NEW)
  with before_write_fits[OF stored(2)] assms show ?thesis
    by (auto split: if_splits)
qed (use assms in simp_all)

lemma insert_row_numbers_fit:
  assumes "numbers_fit db"
  shows "numbers_fit (snd (insert_row to_tsvector db vals))"
proof (cases "fst (insert_row to_tsvector db vals) = None")
  case True
  from insert_row_stored_fits[OF True] assms show ?thesis
    by (auto simp: numbers_fit_iff text_of_def)
next
  case False
  then have "rows (snd (insert_row to_tsvector db vals)) = rows db"
    by (cases rule: insert_row_cases[where to_tsvector = to_tsvector and vals = vals
          and db = db]) simp_all
  with assms show ?thesis
    by (simp add: numbers_fit_iff)
qed

lemma update_row_numbers_fit:
  assumes "numbers_fit db"
  shows "numbers_fit (snd (update_row to_tsvector db i vals))"
  unfolding numbers_fit_iff
proof (intro ballI allI impI)
  fix r k
  assume r: "r \<in> set (rows (snd (update_row to_tsvector db i vals)))"
    and k: "company_number r = Some k"
  from update_row_stored_fits[OF r] show "length k \<le> 10"
  proof
    assume "r \<in> set (rows db)"
    with assms k show ?thesis
      by (auto simp: numbers_fit_iff)
  next
    assume "length (text_of (company_number r)) \<le> 10"
    with k show ?thesis
      by (simp add: text_of_def)
  qed
qed

lemma varchar_Inl: "varchar n v = Inl e \<Longrightarrow> e = String_data_right_truncation n"
  by (cases n v rule: varchar_cases) auto

lemma varchar_long:
  assumes "n < length k"
  shows "(varchar n (Some k) = Inl (String_data_right_truncation n)) =
           (\<exists>c \<in> set (drop n k). c \<noteq> CHR '' '')"
    and "(\<forall>c \<in> set (drop n k). c = CHR '' '') \<Longrightarrow> varchar n (Some k) = Inr (Some (take n k))"
  using assms by (auto simp: varchar_def list_all_iff)

lemma last_in_drop:
  assumes "n < length k"
  shows "last k \<in> set (drop n k)"
proof -
  from assms have "drop n k \<noteq> []" by simp
  then have "last (drop n k) \<in> set (drop n k)" by (rule last_in_set)
  with assms show ?thesis by simp
qed

lemma column_types_long_number:
  assumes "company_number vals = Some k" "10 < length k" "\<exists>c \<in> set (drop 10 k). c \<noteq> CHR '' ''"
  shows "column_types vals = Inl (String_data_right_truncation 10)"
  using assms varchar_long(1)[of 10 k] by (simp add: column_types_def)

lemma long_number_refused:
  assumes "company_number vals = Some k" "10 < length k" "\<exists>c \<in> set (drop 10 k). c \<noteq> CHR '' ''"
  shows "insert_row to_tsvector db vals = (Some (String_data_right_truncation 10), db)"
    and "update_row to_tsvector db i vals = (Some (String_data_right_truncation 10), db)"
  using column_types_long_number[OF assms]
  by (simp_all add: insert_row_def update_row_def)

lemma column_types_cut_number:
  assumes "company_number vals = Some k" "10 < length k" "\<forall>c \<in> set (drop 10 k). c = CHR '' ''"
  shows "column_types (vals\<lparr>company_number := Some (take 10 k)\<rparr>) = column_types vals"
proof -
  from assms have "varchar 10 (company_number vals) = Inr (Some (take 10 k))"
    by (simp add: varchar_long(2))
  moreover from assms(2) have "varchar 10 (Some (take 10 k)) = Inr (Some (take 10 k))"
    by (simp add: varchar_fits)
  ultimately show ?thesis
    by (simp add: column_types_def split: sum.splits)
qed

lemma cut_number_written:
  assumes "company_number vals = Some k" "10 < length k" "\<forall>c \<in> set (drop 10 k). c = CHR '' ''"
  shows "insert_row to_tsvector db vals =
           insert_row to_tsvector db (vals\<lparr>company_number := Some (take 10 k)\<rparr>)"
    and "update_row to_tsvector db i vals =
           update_row to_tsvector db i (vals\<lparr>company_number := Some (take 10 k)\<rparr>)"
  using column_types_cut_number[OF assms]
  by (simp_all add: insert_row_def update_row_def)

section \<open>Properties of the client's address formatting\<close>

lemma push_if_append:
  "push_if f p parts = parts @ [p @ s. (Some s, q) \<leftarrow> [(f, p)], s \<noteq> []]"
  by (simp add: push_if_def split: option.splits)

lemma formatAddress_Object:
  "formatAddress (Object a) =
     join [CHR 0x0A]
       [prefix @ s. (Some s, prefix) \<leftarrow>
          [(care_of a, ''c/o ''), (po_box a, ''PO Box ''), (address_line_1 a, []),
           (address_line_2 a, []), (town a, []), (county a, []), (country a, []),
           (postcode a, [])], s \<noteq> []]"
  by (simp add: formatAddress_def Let_def push_if_append del: append_assoc) simp

text \<open>
  Claim C10, as amended. \<open>formatAddress\<close> returns \<open>N/A\<close> for a \<^verbatim>\<open>null\<close> or missing address.
  For an address object it returns its truthy fields (present and not empty), one per
  line, in the order \<open>care_of\<close>, \<open>po_box\<close>, \<open>address_line_1\<close>, \<open>address_line_2\<close>, \<open>town\<close>,
  \<open>county\<close>, \<open>country\<close>, \<open>postcode\<close>, where \<open>care_of\<close> is written after \<open>c/o \<close> and \<open>po_box\<close>
  after \<open>PO Box \<close>; a field that is missing, \<^verbatim>\<open>null\<close> or empty gives no line.
\<close>

theorem formatAddress_lines:
  "formatAddress Undefined = ''N/A''
   \<and> formatAddress Null = ''N/A''
   \<and> formatAddress (Object a) =
       join [CHR 0x0A]
         [prefix @ s. (Some s, prefix) \<leftarrow>
            [(care_of a, ''c/o ''), (po_box a, ''PO Box ''), (address_line_1 a, []),
             (address_line_2 a, []), (town a, []), (county a, []), (country a, []),
             (postcode a, [])], s \<noteq> []]"
  by (simp add: formatAddress_Object) (simp add: formatAddress_def)

text \<open>
  Claim C10 as the spec states it fails: for the address whose only field is
  \<open>care_of = "Bob"\<close>, the present fields joined by newlines are \<open>Bob\<close>, and the function
  returns \<open>c/o Bob\<close>.
\<close>

theorem formatAddress_prefixes_care_of:
  "formatAddress (Object bob_address) = ''c/o Bob''
   \<and> join [CHR 0x0A]
        [s. Some s \<leftarrow>
           [care_of bob_address, po_box bob_address, address_line_1 bob_address,
            address_line_2 bob_address, town bob_address, county bob_address,
            country bob_address, postcode bob_address], s \<noteq> []] = ''Bob''
   \<and> formatAddress (Object bob_address) \<noteq> ''Bob''"
  by (simp add: formatAddress_Object bob_address_def)

section \<open>Properties of the ingestion job controller\<close>

lemma StartIngestion_active:
  assumes "active j"
  shows "StartIngestion now j = (Inl AlreadyRunning, j)"
  using assms by (auto simp: StartIngestion_def active_def)

lemma StartIngestion_not_active:
  assumes "\<not> active j"
  shows "fst (StartIngestion now j) = Inr ()" and "active (snd (StartIngestion now j))"
  using assms by (simp_all add: StartIngestion_def active_def)

lemma answers_active:
  assumes "active j"
  shows "answers j evs = replicate (length (filter is_start evs)) (Inl AlreadyRunning)"
  using assms
proof (induction evs arbitrary: j)
  case Nil
  then show ?case by simp
next
  case (Cons ev evs)
  show ?case
  proof (cases ev)
    case (Start_request now)
    with Cons show ?thesis
      by (simp add: StartIngestion_active)
  next
    case Fetch_delivered
    from Cons.prems have "active (if status j = Downloading then j\<lparr>status := Processing\<rparr> else j)"
      by (auto simp: active_def)
    with Cons.IH Fetch_delivered show ?thesis
      by simp
  next
    case (Batch_flushed n)
    from Cons.prems
    have "active (if status j = Processing
                  then j\<lparr>processedRecords := processedRecords j + n\<rparr> else j)"
      by (auto simp: active_def)
    with Cons.IH Batch_flushed show ?thesis
      by simp
  qed
qed

lemma answers_not_active:
  assumes "\<not> active j"
  shows "answers j evs =
           (if filter is_start evs = [] then []
            else Inr () # replicate (length (filter is_start evs) - 1) (Inl AlreadyRunning))"
  using assms
proof (induction evs arbitrary: j)
  case Nil
  then show ?case by simp
next
  case (Cons ev evs)
  show ?case
  proof (cases ev)
    case (Start_request now)
    with Cons.prems show ?thesis
      by (simp add: StartIngestion_not_active answers_active)
  next
    case Fetch_delivered
    with Cons show ?thesis
      by (simp add: active_def)
  next
    case (Batch_flushed n)
    with Cons show ?thesis
      by (simp add: active_def)
  qed
qed

lemma one_success:
  "length (filter (\<lambda>a. a = Inr ()) (Inr () # replicate n (Inl AlreadyRunning))) = 1"
  by (induction n) simp_all

text \<open>
  Claim C1. \<open>StartIngestion\<close> answers \<open>AlreadyRunning\<close> exactly when the job's status is
  \<open>Downloading\<close> or \<open>Processing\<close>, and then the job is left as it was. Otherwise it answers
  with success and the job it leaves is \<open>Downloading\<close>, started at the time of the call, with
  the three counters at zero; the answer is given in that one step, before the pipeline has
  done anything. For start requests interleaved in any order with the steps of the pipeline
  that keep a run active: from a job that is not active, the first request succeeds and
  every other one is answered \<open>AlreadyRunning\<close>, so exactly one succeeds; from an active job
  every request is answered \<open>AlreadyRunning\<close>.
\<close>

theorem StartIngestion_single_flight:
  "(fst (StartIngestion now j) = Inl AlreadyRunning) =
     (status j = Downloading \<or> status j = Processing)
   \<and> (fst (StartIngestion now j) = Inl AlreadyRunning \<longrightarrow> snd (StartIngestion now j) = j)
   \<and> (fst (StartIngestion now j) \<noteq> Inl AlreadyRunning \<longrightarrow>
        fst (StartIngestion now j) = Inr () \<and>
        status (snd (StartIngestion now j)) = Downloading \<and>
        startedAt (snd (StartIngestion now j)) = Some now \<and>
        totalRecords (snd (StartIngestion now j)) = 0 \<and>
        processedRecords (snd (StartIngestion now j)) = 0 \<and>
        errorRecords (snd (StartIngestion now j)) = 0)
   \<and> (\<not> active j \<and> filter is_start evs \<noteq> [] \<longrightarrow>
        answers j evs =
          Inr () # replicate (length (filter is_start evs) - 1) (Inl AlreadyRunning) \<and>
        length (filter (\<lambda>a. a = Inr ()) (answers j evs)) = 1)
   \<and> (active j \<longrightarrow>
        answers j evs = replicate (length (filter is_start evs)) (Inl AlreadyRunning))"
proof -
  have "fst (StartIngestion now j) = Inl AlreadyRunning \<longleftrightarrow>
          status j = Downloading \<or> status j = Processing"
    by (simp add: StartIngestion_def)
  moreover have "snd (StartIngestion now j) = j" if "fst (StartIngestion now j) = Inl AlreadyRunning"
    using that by (auto simp: StartIngestion_def split: if_splits)
  moreover have "fst (StartIngestion now j) = Inr () \<and>
        status (snd (StartIngestion now j)) = Downloading \<and>
        startedAt (snd (StartIngestion now j)) = Some now \<and>
        totalRecords (snd (StartIngestion now j)) = 0 \<and>
        processedRecords (snd (StartIngestion now j)) = 0 \<and>
        errorRecords (snd (StartIngestion now j)) = 0"
    if "fst (StartIngestion now j) \<noteq> Inl AlreadyRunning"
    using that by (simp add: StartIngestion_def split: if_splits)
  moreover have "answers j evs =
          Inr () # replicate (length (filter is_start evs) - 1) (Inl AlreadyRunning) \<and>
        length (filter (\<lambda>a. a = Inr ()) (answers j evs)) = 1"
    if "\<not> active j" "filter is_start evs \<noteq> []"
    using that by (simp add: answers_not_active one_success)
  moreover have "answers j evs = replicate (length (filter is_start evs)) (Inl AlreadyRunning)"
    if "active j"
    using that by (rule answers_active)
  ultimately show ?thesis
    by blast
qed

theorem StartIngestion_single_flight_witness:
  "fst (StartIngestion 9 busy_job) = Inl AlreadyRunning
   \<and> snd (StartIngestion 9 busy_job) = busy_job
   \<and> fst (StartIngestion 9 idle_job) \<noteq> Inl AlreadyRunning
   \<and> fst (StartIngestion 9 idle_job) = Inr ()
   \<and> status (snd (StartIngestion 9 idle_job)) = Downloading
   \<and> startedAt (snd (StartIngestion 9 idle_job)) = Some 9
   \<and> \<not> active idle_job
   \<and> filter is_start [Start_request 5, Fetch_delivered, Start_request 6, Batch_flushed 100,
        Start_request 7] \<noteq> []
   \<and> answers idle_job [Start_request 5, Fetch_delivered, Start_request 6, Batch_flushed 100,
        Start_request 7] = [Inr (), Inl AlreadyRunning, Inl AlreadyRunning]
   \<and> active busy_job
   \<and> answers busy_job [Start_request 5, Batch_flushed 100, Start_request 6] =
        [Inl AlreadyRunning, Inl AlreadyRunning]"
proof -
  have busy: "fst (StartIngestion 9 busy_job) = Inl AlreadyRunning" "active busy_job"
    by (simp_all add: StartIngestion_def busy_job_def active_def)
  have idle: "fst (StartIngestion 9 idle_job) \<noteq> Inl AlreadyRunning" "\<not> active idle_job"
    by (simp_all add: StartIngestion_def idle_job_def active_def)
  have starts: "filter is_start [Start_request 5, Fetch_delivered, Start_request 6,
      Batch_flushed 100, Start_request 7] \<noteq> []"
    by simp
  from StartIngestion_single_flight[where now = 9 and j = busy_job
      and evs = "[Start_request 5, Batch_flushed 100, Start_request 6]"] busy
  have a: "snd (StartIngestion 9 busy_job) = busy_job"
    "answers busy_job [Start_request 5, Batch_flushed 100, Start_request 6] =
       [Inl AlreadyRunning, Inl AlreadyRunning]"
    by simp_all
  from StartIngestion_single_flight[where now = 9 and j = idle_job
      and evs = "[Start_request 5, Fetch_delivered, Start_request 6, Batch_flushed 100,
        Start_request 7]"] idle starts
  have b: "fst (StartIngestion 9 idle_job) = Inr ()"
    "status (snd (StartIngestion 9 idle_job)) = Downloading"
    "startedAt (snd (StartIngestion 9 idle_job)) = Some 9"
    "answers idle_job [Start_request 5, Fetch_delivered, Start_request 6, Batch_flushed 100,
        Start_request 7] = [Inr (), Inl AlreadyRunning, Inl AlreadyRunning]"
    by simp_all
  from busy idle starts a b show ?thesis
    by blast
qed

section \<open>Properties of the lookup\<close>

lemma numbers_Cons:
  "numbers (r # rs) = (case company_number r of None \<Rightarrow> [] | Some k \<Rightarrow> [k]) @ numbers rs"
  by (simp add: numbers_def)

lemma numbers_append: "numbers (xs @ ys) = numbers xs @ numbers ys"
  by (simp add: numbers_def)

lemma in_numbers_iff:
  "k \<in> set (numbers rs) \<longleftrightarrow> (\<exists>r \<in> set rs. company_number r = Some k)"
proof (induction rs)
  case Nil
  then show ?case by (simp add: numbers_def)
next
  case (Cons x rs)
  then show ?case
    by (cases "company_number x") (auto simp: numbers_Cons)
qed

lemma find_number_unique:
  assumes "distinct (numbers rs)" "r \<in> set rs" "company_number r = Some k"
  shows "find (\<lambda>r. company_number r = Some k) rs = Some r"
  using assms
proof (induction rs)
  case Nil
  then show ?case by simp
next
  case (Cons x rs)
  show ?case
  proof (cases "company_number x = Some k")
    case True
    with Cons.prems have "k \<notin> set (numbers rs)"
      by (simp add: numbers_Cons)
    with Cons.prems(2,3) True have "r = x"
      by (auto simp: in_numbers_iff)
    with True show ?thesis by simp
  next
    case False
    with Cons.prems have "r \<in> set rs" "distinct (numbers rs)"
      by (auto simp: numbers_Cons)
    with Cons.IH Cons.prems(3) False show ?thesis
      by simp
  qed
qed

lemma CompanyLookup_Inr:
  "(CompanyLookup db k = Inr r) =
     (find (\<lambda>r. company_number r = Some k) (rows db) = Some r)"
  by (simp add: CompanyLookup_def split: option.splits)

lemma CompanyLookup_NotFound:
  "(CompanyLookup db k = Inl NotFound) = (\<not> (\<exists>r \<in> set (rows db). company_number r = Some k))"
proof (cases "find (\<lambda>r. company_number r = Some k) (rows db)")
  case None
  then have "\<not> (\<exists>r \<in> set (rows db). company_number r = Some k)"
    by (simp add: find_None_iff)
  moreover from None have "CompanyLookup db k = Inl NotFound"
    by (simp add: CompanyLookup_def)
  ultimately show ?thesis
    by simp
next
  case (Some r)
  then have "r \<in> set (rows db)" "company_number r = Some k"
    by (auto simp: find_Some_iff in_set_conv_nth)
  with Some show ?thesis
    by (auto simp: CompanyLookup_def)
qed

lemma CompanyLookup_sound:
  assumes "CompanyLookup db k = Inr r"
  shows "r \<in> set (rows db)" and "company_number r = Some k"
    and "get_company db k = (200, Some r)"
  using assms
  by (auto simp: CompanyLookup_def get_company_def find_Some_iff in_set_conv_nth
        split: option.splits)

lemma CompanyLookup_the_record:
  assumes "unique_ok db" "r \<in> set (rows db)" "company_number r = Some k"
  shows "CompanyLookup db k = Inr r"
  using assms by (simp add: CompanyLookup_Inr unique_ok_def find_number_unique)

text \<open>
  Claim C7. \<open>CompanyLookup\<close> returns a stored record with the key when there is one, answered
  with 200 and that record; under the table's uniqueness it is the one record with the key.
  It fails with \<open>NotFound\<close>, answered with 404, exactly when no record has the key; on the
  empty store every lookup is \<open>NotFound\<close>.
\<close>

theorem CompanyLookup_found_or_NotFound:
  "(\<exists>r. CompanyLookup db k = Inr r) = (\<exists>r \<in> set (rows db). company_number r = Some k)
   \<and> (CompanyLookup db k = Inl NotFound) = (\<not> (\<exists>r \<in> set (rows db). company_number r = Some k))
   \<and> (\<forall>r. CompanyLookup db k = Inr r \<longrightarrow>
        r \<in> set (rows db) \<and> company_number r = Some k \<and> get_company db k = (200, Some r))
   \<and> (CompanyLookup db k = Inl NotFound \<longrightarrow> get_company db k = (404, None))
   \<and> (unique_ok db \<longrightarrow>
        (\<forall>r \<in> set (rows db). company_number r = Some k \<longrightarrow> CompanyLookup db k = Inr r))
   \<and> CompanyLookup empty_db k = Inl NotFound
   \<and> get_company empty_db k = (404, None)"
proof -
  have "(\<exists>r. CompanyLookup db k = Inr r) = (\<exists>r \<in> set (rows db). company_number r = Some k)"
    using CompanyLookup_NotFound[of db k]
    by (cases "CompanyLookup db k")
      (auto simp: CompanyLookup_def split: option.splits)
  moreover have "get_company db k = (404, None)" if "CompanyLookup db k = Inl NotFound"
    using that by (simp add: get_company_def)
  moreover have "CompanyLookup empty_db k = Inl NotFound" "get_company empty_db k = (404, None)"
    by (simp_all add: CompanyLookup_def get_company_def empty_db_def)
  ultimately show ?thesis
    using CompanyLookup_NotFound[of db k] CompanyLookup_sound[of db k]
      CompanyLookup_the_record[of db _ k]
    by blast
qed

theorem CompanyLookup_found_or_NotFound_witness:
  "CompanyLookup acme_db ''00000001'' = Inr (acme_stored ''Acme Ltd'')
   \<and> acme_stored ''Acme Ltd'' \<in> set (rows acme_db)
   \<and> company_number (acme_stored ''Acme Ltd'') = Some ''00000001''
   \<and> get_company acme_db ''00000001'' = (200, Some (acme_stored ''Acme Ltd''))
   \<and> unique_ok acme_db
   \<and> CompanyLookup acme_db ''99999999'' = Inl NotFound
   \<and> get_company acme_db ''99999999'' = (404, None)
   \<and> CompanyLookup (empty_db :: string companies_db) ''99999999'' = Inl NotFound"
proof -
  have stored: "acme_stored ''Acme Ltd'' \<in> set (rows acme_db)"
    "company_number (acme_stored ''Acme Ltd'') = Some ''00000001''"
    by (simp_all add: acme_db_eq acme_stored_def null_vals_def)
  have uniq: "unique_ok acme_db"
    by (simp add: unique_ok_def acme_db_eq numbers_def acme_stored_def null_vals_def)
  have miss: "\<not> (\<exists>r \<in> set (rows acme_db). company_number r = Some ''99999999'')"
    by (simp add: acme_db_eq acme_stored_def null_vals_def)
  from CompanyLookup_found_or_NotFound[where db = acme_db and k = "''00000001''"] stored uniq
  have hit: "CompanyLookup acme_db ''00000001'' = Inr (acme_stored ''Acme Ltd'')"
    by blast
  with CompanyLookup_found_or_NotFound[where db = acme_db and k = "''00000001''"]
  have ok: "get_company acme_db ''00000001'' = (200, Some (acme_stored ''Acme Ltd''))"
    by blast
  from CompanyLookup_found_or_NotFound[where db = acme_db and k = "''99999999''"] miss
  have nf: "CompanyLookup acme_db ''99999999'' = Inl NotFound"
    "get_company acme_db ''99999999'' = (404, None)"
    by blast+
  from CompanyLookup_found_or_NotFound[where db = acme_db and k = "''99999999''"]
  have "CompanyLookup (empty_db :: string companies_db) ''99999999'' = Inl NotFound"
    by blast
  with stored uniq hit ok nf show ?thesis
    by blast
qed

section \<open>Properties of the upsert\<close>

subsection \<open>The constraints are kept by every write\<close>

lemma number_taken_iff:
  "number_taken rs num \<longleftrightarrow> (\<exists>k. num = Some k \<and> k \<in> set (numbers rs))"
  by (cases num) (force simp: number_taken_def in_numbers_iff)+

lemma numbers_single:
  "numbers [r] = (case company_number r of None \<Rightarrow> [] | Some k \<Rightarrow> [k])"
  by (simp add: numbers_def)

lemma distinct_numbers_snoc:
  assumes "distinct (numbers rs)" "\<not> number_taken rs (company_number NEW)"
  shows "distinct (numbers (rs @ [NEW]))"
  using assms
  by (cases "company_number NEW") (auto simp: numbers_append numbers_single number_taken_iff)

lemma insert_row_unique_ok:
  assumes "unique_ok db"
  shows "unique_ok (snd (insert_row to_tsvector db vals))"
proof (cases rule: insert_row_cases[where to_tsvector = to_tsvector and vals = vals and db = db])
  case (stored NEW)
  from before_write_number(2)[OF stored(1)] have "id_col NEW = id_seq db + 1"
    by simp
  with stored(3,4,5) assms show ?thesis
    by (simp add: unique_ok_def distinct_numbers_snoc)
qed (use assms in \<open>simp_all add: unique_ok_def\<close>)

lemma numbers_replace_subset:
  "set (numbers (map (\<lambda>r. if id_col r = i then NEW else r) rs))
     \<subseteq> set (numbers rs) \<union> set (numbers [NEW])"
  by (induction rs) (auto simp: numbers_Cons numbers_single split: option.splits)

lemma number_taken_Cons:
  "number_taken (r # rs) num \<longleftrightarrow> (num \<noteq> None \<and> company_number r = num) \<or> number_taken rs num"
  by (auto simp: number_taken_def)

lemma replace_no_row:
  assumes "i \<notin> set (map id_col rs)"
  shows "map (\<lambda>r. if id_col r = i then NEW else r) rs = rs"
    and "filter (\<lambda>r. id_col r \<noteq> i) rs = rs"
  using assms by (induction rs) auto

lemma distinct_numbers_replace:
  assumes "distinct (map id_col rs)" "distinct (numbers rs)"
    and "\<not> number_taken (filter (\<lambda>r. id_col r \<noteq> i) rs) (company_number NEW)"
  shows "distinct (numbers (map (\<lambda>r. if id_col r = i then NEW else r) rs))"
  using assms
proof (induction rs)
  case Nil
  then show ?case by (simp add: numbers_def)
next
  case (Cons r rs)
  show ?case
  proof (cases "id_col r = i")
    case True
    with Cons.prems(1) have none: "i \<notin> set (map id_col rs)"
      by auto
    from Cons.prems(3) True have "\<not> number_taken rs (company_number NEW)"
      by (simp add: replace_no_row(2)[OF none])
    moreover from Cons.prems(2) have "distinct (numbers rs)"
      by (simp add: numbers_Cons)
    ultimately have "distinct (numbers (NEW # rs))"
      by (cases "company_number NEW") (auto simp: numbers_Cons number_taken_iff)
    with True show ?thesis
      by (simp add: replace_no_row(1)[OF none])
  next
    case False
    let ?rs' = "map (\<lambda>r. if id_col r = i then NEW else r) rs"
    from Cons.prems(3) False
    have other: "\<not> (company_number NEW \<noteq> None \<and> company_number r = company_number NEW)"
      and rest: "\<not> number_taken (filter (\<lambda>r. id_col r \<noteq> i) rs) (company_number NEW)"
      by (simp_all add: number_taken_Cons)
    from Cons.prems(1,2) have "distinct (map id_col rs)" "distinct (numbers rs)"
      by (simp_all add: numbers_Cons)
    with Cons.IH rest have d: "distinct (numbers ?rs')"
      by simp
    show ?thesis
    proof (cases "company_number r")
      case None
      with d False show ?thesis
        by (simp add: numbers_Cons)
    next
      case (Some k)
      with Cons.prems(2) have "k \<notin> set (numbers rs)"
        by (simp add: numbers_Cons)
      moreover from other Some have "k \<notin> set (numbers [NEW])"
        by (auto simp: numbers_single split: option.splits)
      ultimately have "k \<notin> set (numbers ?rs')"
        using numbers_replace_subset[of i NEW rs] by blast
      with d Some False show ?thesis
        by (simp add: numbers_Cons)
    qed
  qed
qed

lemma ids_replace:
  assumes "id_col NEW = i"
  shows "map id_col (map (\<lambda>r. if id_col r = i then NEW else r) rs) = map id_col rs"
  using assms by (induction rs) auto

lemma update_row_unique_ok:
  assumes "unique_ok db"
  shows "unique_ok (snd (update_row to_tsvector db i vals))"
proof (cases rule: update_row_cases[where to_tsvector = to_tsvector and vals = vals and db = db
      and i = i])
  case (stored NEW)
  from before_write_number(2)[OF stored(2)] have "id_col NEW = i"
    by simp
  then have "map id_col (map (\<lambda>r. if id_col r = i then NEW else r) (rows db)) =
      map id_col (rows db)"
    by (rule ids_replace)
  with stored(3,4) assms show ?thesis
    by (simp add: unique_ok_def distinct_numbers_replace del: map_map)
qed (use assms in simp_all)

lemma upsert_unique_ok:
  assumes "unique_ok db"
  shows "unique_ok (snd (upsert to_tsvector db vals))"
  using assms
  by (simp add: upsert_def insert_row_unique_ok update_row_unique_ok split: option.splits)

lemma insert_row_ids_from_seq:
  assumes "ids_from_seq db"
  shows "ids_from_seq (snd (insert_row to_tsvector db vals))"
proof (cases rule: insert_row_cases[where to_tsvector = to_tsvector and vals = vals and db = db])
  case (stored NEW)
  from before_write_number(2)[OF stored(1)] have "id_col NEW = id_seq db + 1"
    by simp
  with stored(5) assms show ?thesis
    by (auto simp: ids_from_seq_def list_all_iff)
qed (use assms in \<open>auto simp: ids_from_seq_def list_all_iff\<close>)

lemma update_row_ids_from_seq:
  assumes "ids_from_seq db"
  shows "ids_from_seq (snd (update_row to_tsvector db i vals))"
proof (cases rule: update_row_cases[where to_tsvector = to_tsvector and vals = vals and db = db
      and i = i])
  case (stored NEW)
  from before_write_number(2)[OF stored(2)] have "id_col NEW = i"
    by simp
  moreover from stored(1) assms have "i \<le> id_seq db"
    by (auto simp: ids_from_seq_def list_all_iff)
  ultimately show ?thesis
    using stored(4) assms by (auto simp: ids_from_seq_def list_all_iff)
qed (use assms in simp_all)

lemma insert_row_id_seq_mono: "id_seq db \<le> id_seq (snd (insert_row to_tsvector db vals))"
  by (cases rule: insert_row_cases[where to_tsvector = to_tsvector and vals = vals and db = db])
    simp_all

lemma update_row_id_seq: "id_seq (snd (update_row to_tsvector db i vals)) = id_seq db"
  by (cases rule: update_row_cases[where to_tsvector = to_tsvector and vals = vals and db = db
        and i = i]) simp_all

lemma upsert_id_seq_mono: "id_seq db \<le> id_seq (snd (upsert to_tsvector db vals))"
  by (simp add: upsert_def insert_row_id_seq_mono update_row_id_seq split: option.splits)

lemma upsert_numbers_fit:
  assumes "numbers_fit db"
  shows "numbers_fit (snd (upsert to_tsvector db vals))"
  using assms
  by (simp add: upsert_def insert_row_numbers_fit update_row_numbers_fit split: option.splits)

lemma upsert_table_ok:
  assumes "table_ok db"
  shows "table_ok (snd (upsert to_tsvector db vals))"
  using assms
  by (simp add: table_ok_def upsert_def insert_row_unique_ok update_row_unique_ok
        insert_row_numbers_fit update_row_numbers_fit insert_row_ids_from_seq
        update_row_ids_from_seq split: option.splits)

lemma ingest_Nil: "ingest to_tsvector db [] = db"
  by (simp add: ingest_def)

lemma ingest_Cons:
  "ingest to_tsvector db (vals # dataset) =
     ingest to_tsvector (snd (upsert to_tsvector db vals)) dataset"
  by (simp add: ingest_def)

lemma ingest_unique_ok:
  assumes "unique_ok db"
  shows "unique_ok (ingest to_tsvector db dataset)"
  using assms
  by (induction dataset arbitrary: db) (simp_all add: ingest_Nil ingest_Cons upsert_unique_ok)

lemma ingest_numbers_fit:
  assumes "numbers_fit db"
  shows "numbers_fit (ingest to_tsvector db dataset)"
  using assms
  by (induction dataset arbitrary: db) (simp_all add: ingest_Nil ingest_Cons upsert_numbers_fit)

lemma ingest_table_ok:
  assumes "table_ok db"
  shows "table_ok (ingest to_tsvector db dataset)"
  using assms
  by (induction dataset arbitrary: db) (simp_all add: ingest_Nil ingest_Cons upsert_table_ok)

lemma at_most_one_row:
  assumes "distinct (numbers rs)"
  shows "length (filter (\<lambda>r. company_number r = Some k) rs) \<le> 1"
  using assms
proof (induction rs)
  case Nil
  then show ?case by simp
next
  case (Cons r rs)
  show ?case
  proof (cases "company_number r = Some k")
    case True
    with Cons.prems have "k \<notin> set (numbers rs)"
      by (simp add: numbers_Cons)
    then have "filter (\<lambda>r. company_number r = Some k) rs = []"
      by (auto simp: in_numbers_iff filter_empty_conv)
    with True show ?thesis by simp
  next
    case False
    with Cons show ?thesis
      by (cases "company_number r") (simp_all add: numbers_Cons)
  qed
qed

subsection \<open>C8: a number longer than VARCHAR(10)\<close>

lemma upsert_long_number_refused:
  assumes "company_number vals = Some k" "10 < length k" "\<exists>c \<in> set (drop 10 k). c \<noteq> CHR '' ''"
  shows "upsert to_tsvector db vals = (Some (String_data_right_truncation 10), db)"
  using long_number_refused[OF assms]
  by (simp add: upsert_def split: option.splits)

text \<open>
  Claim C8, as amended. Every number the table stores has at most 10 characters: the empty
  table has the property, an insert, an update, the sink's upsert and a whole ingestion keep
  it, and the row an insert adds and every row an update changes has it. A write whose number
  has more than 10 characters is refused, the stored rows staying as they were, whenever one
  of the characters past the tenth is not a space, so whenever the number does not end in a
  space. When the characters past the tenth are all spaces the number is not refused for its
  length: the insert or update is carried out as the one of the first 10 characters.
\<close>

theorem stored_company_number_within_varchar_10:
  "numbers_fit (empty_db :: 'v companies_db)
   \<and> (numbers_fit db \<longrightarrow>
        numbers_fit (snd (insert_row (to_tsvector :: string \<Rightarrow> string \<Rightarrow> 'v) db vals)) \<and>
        numbers_fit (snd (update_row to_tsvector db i vals)) \<and>
        numbers_fit (snd (upsert to_tsvector db vals)) \<and>
        numbers_fit (ingest to_tsvector db dataset))
   \<and> (fst (insert_row to_tsvector db vals) = None \<longrightarrow>
        (\<exists>r. rows (snd (insert_row to_tsvector db vals)) = rows db @ [r] \<and>
             length (text_of (company_number r)) \<le> 10))
   \<and> (\<forall>r \<in> set (rows (snd (update_row to_tsvector db i vals))).
        r \<in> set (rows db) \<or> length (text_of (company_number r)) \<le> 10)
   \<and> (company_number vals = Some k \<and> 10 < length k \<and> (\<exists>c \<in> set (drop 10 k). c \<noteq> CHR '' '') \<longrightarrow>
        fst (insert_row to_tsvector db vals) \<noteq> None \<and>
        rows (snd (insert_row to_tsvector db vals)) = rows db \<and>
        fst (update_row to_tsvector db i vals) \<noteq> None \<and>
        rows (snd (update_row to_tsvector db i vals)) = rows db \<and>
        fst (upsert to_tsvector db vals) \<noteq> None \<and>
        rows (snd (upsert to_tsvector db vals)) = rows db)
   \<and> (company_number vals = Some k \<and> 10 < length k \<and> last k \<noteq> CHR '' '' \<longrightarrow>
        fst (insert_row to_tsvector db vals) \<noteq> None \<and>
        rows (snd (insert_row to_tsvector db vals)) = rows db \<and>
        fst (update_row to_tsvector db i vals) \<noteq> None \<and>
        rows (snd (update_row to_tsvector db i vals)) = rows db \<and>
        fst (upsert to_tsvector db vals) \<noteq> None \<and>
        rows (snd (upsert to_tsvector db vals)) = rows db)
   \<and> (company_number vals = Some k \<and> 10 < length k \<and> (\<forall>c \<in> set (drop 10 k). c = CHR '' '') \<longrightarrow>
        insert_row to_tsvector db vals =
          insert_row to_tsvector db (vals\<lparr>company_number := Some (take 10 k)\<rparr>) \<and>
        update_row to_tsvector db i vals =
          update_row to_tsvector db i (vals\<lparr>company_number := Some (take 10 k)\<rparr>))"
proof -
  have empty: "numbers_fit (empty_db :: 'v companies_db)"
    by (simp add: numbers_fit_def numbers_def empty_db_def)
  have refused: "fst (insert_row to_tsvector db vals) \<noteq> None \<and>
        rows (snd (insert_row to_tsvector db vals)) = rows db \<and>
        fst (update_row to_tsvector db i vals) \<noteq> None \<and>
        rows (snd (update_row to_tsvector db i vals)) = rows db \<and>
        fst (upsert to_tsvector db vals) \<noteq> None \<and>
        rows (snd (upsert to_tsvector db vals)) = rows db"
    if "company_number vals = Some k" "10 < length k" "\<exists>c \<in> set (drop 10 k). c \<noteq> CHR '' ''"
    using long_number_refused(1)[OF that, where to_tsvector = to_tsvector and db = db]
      long_number_refused(2)[OF that, where to_tsvector = to_tsvector and db = db and i = i]
      upsert_long_number_refused[OF that, where to_tsvector = to_tsvector and db = db]
    by simp
  have trimmed: "\<exists>c \<in> set (drop 10 k). c \<noteq> CHR '' ''"
    if "10 < length k" "last k \<noteq> CHR '' ''"
    using that last_in_drop[of 10 k] by blast
  show ?thesis
    using empty refused trimmed
      insert_row_numbers_fit[where to_tsvector = to_tsvector and db = db and vals = vals]
      update_row_numbers_fit[where to_tsvector = to_tsvector and db = db and vals = vals
        and i = i]
      upsert_numbers_fit[where to_tsvector = to_tsvector and db = db and vals = vals]
      ingest_numbers_fit[where to_tsvector = to_tsvector and db = db and dataset = dataset]
      insert_row_stored_fits[where to_tsvector = to_tsvector and db = db and vals = vals]
      update_row_stored_fits[where to_tsvector = to_tsvector and db = db and vals = vals
        and i = i]
      cut_number_written(1)[where to_tsvector = to_tsvector and db = db and vals = vals
        and k = k]
      cut_number_written(2)[where to_tsvector = to_tsvector and db = db and vals = vals
        and k = k and i = i]
    by blast
qed

lemma padded_inserted:
  "insert_row plain_tsvector empty_db padded_vals =
     (None, \<lparr>rows = [null_vals\<lparr>id_col := 1, company_number := Some ''0123456789'',
                       search_vector := Some '' 0123456789            ''\<rparr>],
             id_seq = 1\<rparr>)"
  by (simp add: insert_row_def Let_def column_types_def varchar_def date_col_def
        companies_search_vector_update_def call_to_tsvector_def coalesce_def sql_concat_def
        number_taken_def empty_db_def padded_vals_def null_vals_def plain_tsvector_def)

lemma padded_updated:
  "update_row plain_tsvector acme_db 1 padded_vals =
     (None, \<lparr>rows = [null_vals\<lparr>id_col := 1, company_number := Some ''0123456789'',
                       search_vector := Some '' 0123456789            ''\<rparr>],
             id_seq = 1\<rparr>)"
  by (simp add: acme_db_eq update_row_def Let_def column_types_def varchar_def date_col_def
        companies_search_vector_update_def call_to_tsvector_def coalesce_def sql_concat_def
        number_taken_def padded_vals_def null_vals_def plain_tsvector_def acme_stored_def)

theorem stored_company_number_within_varchar_10_witness:
  "numbers_fit acme_db
   \<and> numbers_fit (snd (insert_row plain_tsvector acme_db padded_vals))
   \<and> numbers_fit (snd (update_row plain_tsvector acme_db 1 padded_vals))
   \<and> numbers_fit (snd (upsert plain_tsvector acme_db padded_vals))
   \<and> numbers_fit (ingest plain_tsvector acme_db [padded_vals, long_vals])
   \<and> fst (insert_row plain_tsvector empty_db padded_vals) = None
   \<and> (\<exists>r. rows (snd (insert_row plain_tsvector empty_db padded_vals)) = rows empty_db @ [r] \<and>
          length (text_of (company_number r)) \<le> 10)
   \<and> (\<exists>r. r \<in> set (rows (snd (update_row plain_tsvector acme_db 1 padded_vals))) \<and>
          r \<notin> set (rows acme_db) \<and> company_number r = Some ''0123456789'' \<and>
          length (text_of (company_number r)) \<le> 10)
   \<and> company_number long_vals = Some ''00000000001'' \<and> 10 < length ''00000000001''
   \<and> (\<exists>c \<in> set (drop 10 ''00000000001''). c \<noteq> CHR '' '')
   \<and> last ''00000000001'' \<noteq> CHR '' ''
   \<and> fst (insert_row plain_tsvector acme_db long_vals) \<noteq> None
   \<and> rows (snd (insert_row plain_tsvector acme_db long_vals)) = rows acme_db
   \<and> 1 \<in> set (map id_col (rows acme_db))
   \<and> fst (update_row plain_tsvector acme_db 1 long_vals) \<noteq> None
   \<and> rows (snd (update_row plain_tsvector acme_db 1 long_vals)) = rows acme_db
   \<and> fst (upsert plain_tsvector acme_db long_vals) \<noteq> None
   \<and> rows (snd (upsert plain_tsvector acme_db long_vals)) = rows acme_db
   \<and> company_number padded_vals = Some ''0123456789 '' \<and> 10 < length ''0123456789 ''
   \<and> drop 10 ''0123456789 '' = '' ''
   \<and> insert_row plain_tsvector empty_db padded_vals =
        insert_row plain_tsvector empty_db (padded_vals\<lparr>company_number := Some ''0123456789''\<rparr>)
   \<and> update_row plain_tsvector acme_db 1 padded_vals =
        update_row plain_tsvector acme_db 1 (padded_vals\<lparr>company_number := Some ''0123456789''\<rparr>)"
proof -
  have fit: "numbers_fit acme_db"
    by (simp add: numbers_fit_def numbers_def acme_db_eq acme_stored_def null_vals_def)
  have long: "company_number long_vals = Some ''00000000001''" "10 < length ''00000000001''"
    "\<exists>c \<in> set (drop 10 ''00000000001''). c \<noteq> CHR '' ''" "last ''00000000001'' \<noteq> CHR '' ''"
    by (simp_all add: long_vals_def null_vals_def)
  have padded: "company_number padded_vals = Some ''0123456789 ''" "10 < length ''0123456789 ''"
    "drop 10 ''0123456789 '' = '' ''" "\<forall>c \<in> set (drop 10 ''0123456789 ''). c = CHR '' ''"
    by (simp_all add: padded_vals_def null_vals_def)
  have cut: "take 10 ''0123456789 '' = ''0123456789''"
    by simp
  have row: "1 \<in> set (map id_col (rows acme_db))"
    by (simp add: acme_db_eq acme_stored_def null_vals_def)
  have ins: "fst (insert_row plain_tsvector empty_db padded_vals) = None"
    by (simp add: padded_inserted)
  let ?r = "null_vals\<lparr>id_col := 1, company_number := Some ''0123456789'',
                       search_vector := Some '' 0123456789            ''\<rparr> :: string companies_row"
  have upd: "?r \<in> set (rows (snd (update_row plain_tsvector acme_db 1 padded_vals)))"
    by (simp add: padded_updated)
  have new: "?r \<notin> set (rows acme_db)" "company_number ?r = Some ''0123456789''"
    by (simp_all add: acme_db_eq acme_stored_def null_vals_def)
  note main = stored_company_number_within_varchar_10[where to_tsvector = plain_tsvector]
  from main[where db = acme_db and vals = padded_vals and i = 1
      and dataset = "[padded_vals, long_vals]"] fit upd new(1)
  have a: "numbers_fit (snd (insert_row plain_tsvector acme_db padded_vals))"
    "numbers_fit (snd (update_row plain_tsvector acme_db 1 padded_vals))"
    "numbers_fit (snd (upsert plain_tsvector acme_db padded_vals))"
    "numbers_fit (ingest plain_tsvector acme_db [padded_vals, long_vals])"
    "length (text_of (company_number ?r)) \<le> 10"
    by blast+
  from main[where db = empty_db and vals = padded_vals] ins
  have b: "\<exists>r. rows (snd (insert_row plain_tsvector empty_db padded_vals)) = rows empty_db @ [r] \<and>
          length (text_of (company_number r)) \<le> 10"
    by blast
  from main[where db = acme_db and vals = long_vals and i = 1 and k = "''00000000001''"] long
  have c: "fst (insert_row plain_tsvector acme_db long_vals) \<noteq> None"
    "rows (snd (insert_row plain_tsvector acme_db long_vals)) = rows acme_db"
    "fst (update_row plain_tsvector acme_db 1 long_vals) \<noteq> None"
    "rows (snd (update_row plain_tsvector acme_db 1 long_vals)) = rows acme_db"
    "fst (upsert plain_tsvector acme_db long_vals) \<noteq> None"
    "rows (snd (upsert plain_tsvector acme_db long_vals)) = rows acme_db"
    by blast+
  from main[where db = empty_db and vals = padded_vals and k = "''0123456789 ''"] padded cut
  have d: "insert_row plain_tsvector empty_db padded_vals =
        insert_row plain_tsvector empty_db (padded_vals\<lparr>company_number := Some ''0123456789''\<rparr>)"
    by simp
  from main[where db = acme_db and vals = padded_vals and k = "''0123456789 ''" and i = 1]
    padded cut
  have e: "update_row plain_tsvector acme_db 1 padded_vals =
        update_row plain_tsvector acme_db 1 (padded_vals\<lparr>company_number := Some ''0123456789''\<rparr>)"
    by simp
  from fit long padded(1-3) row ins upd new a b c d e show ?thesis
    by blast
qed

text \<open>
  Claim C8 as the spec states it fails: a number of eleven characters whose last character
  is a space is stored, cut to ten characters; neither the insert nor the upsert of it into
  the empty table is refused.
\<close>

theorem over_length_number_accepted:
  "company_number padded_vals = Some ''0123456789 ''
   \<and> length ''0123456789 '' = 11
   \<and> fst (insert_row plain_tsvector empty_db padded_vals) = None
   \<and> map company_number (rows (snd (insert_row plain_tsvector empty_db padded_vals))) =
        [Some ''0123456789'']
   \<and> fst (upsert plain_tsvector empty_db padded_vals) = None
   \<and> map company_number (rows (snd (upsert plain_tsvector empty_db padded_vals))) =
        [Some ''0123456789'']"
proof -
  have "upsert plain_tsvector empty_db padded_vals =
          insert_row plain_tsvector empty_db padded_vals"
    by (simp add: upsert_def empty_db_def)
  then show ?thesis
    by (simp add: padded_inserted) (simp add: padded_vals_def null_vals_def)
qed

subsection \<open>Writing a number the table holds\<close>

lemma find_number_Some:
  assumes "find (\<lambda>r. company_number vals \<noteq> None \<and> company_number r = company_number vals) rs
             = Some r"
  shows "r \<in> set rs" and "company_number r = company_number vals"
    and "company_number vals \<noteq> None"
  using assms by (auto simp: find_Some_iff in_set_conv_nth)

lemma find_number_None:
  assumes "find (\<lambda>r. company_number vals \<noteq> None \<and> company_number r = company_number vals) rs
             = None"
  shows "\<not> number_taken rs (company_number vals)"
  using assms by (auto simp: find_None_iff number_taken_def)

lemma find_number_taken:
  assumes "number_taken rs (company_number vals)"
  obtains r where
    "find (\<lambda>r. company_number vals \<noteq> None \<and> company_number r = company_number vals) rs
       = Some r"
  using assms find_number_None by (cases "find (\<lambda>r. company_number vals \<noteq> None \<and>
    company_number r = company_number vals) rs") auto

lemma update_row_length:
  "length (rows (snd (update_row to_tsvector db i vals))) = length (rows db)"
  by (cases rule: update_row_cases[where to_tsvector = to_tsvector and vals = vals and db = db
        and i = i]) simp_all

lemma upsert_taken_length:
  assumes "number_taken (rows db) (company_number vals)"
  shows "length (rows (snd (upsert to_tsvector db vals))) = length (rows db)"
proof -
  from assms obtain r where
    "find (\<lambda>r. company_number vals \<noteq> None \<and> company_number r = company_number vals) (rows db)
       = Some r"
    by (rule find_number_taken)
  then show ?thesis
    by (simp add: upsert_def update_row_length)
qed

lemma same_id_same_row:
  assumes "distinct (map id_col rs)" "x \<in> set rs" "y \<in> set rs" "id_col x = id_col y"
  shows "x = y"
  using assms by (meson distinct_map inj_on_eq_iff)

lemma upsert_overwrites:
  assumes "unique_ok db" "old \<in> set (rows db)" "company_number old = company_number vals"
    and "company_number vals \<noteq> None" "fst (upsert to_tsvector db vals) = None"
  shows "\<exists>NEW. before_insert_or_update to_tsvector (vals\<lparr>id_col := id_col old\<rparr>) = Inr NEW \<and>
           rows (snd (upsert to_tsvector db vals)) =
             map (\<lambda>r. if r = old then NEW else r) (rows db)"
proof -
  from assms(4) obtain k where k: "company_number vals = Some k"
    by auto
  from assms(1) have "distinct (numbers (rows db))"
    by (simp add: unique_ok_def)
  with assms(2,3) k
  have "find (\<lambda>r. company_number r = Some k) (rows db) = Some old"
    by (simp add: find_number_unique)
  with k have up: "upsert to_tsvector db vals = update_row to_tsvector db (id_col old) vals"
    by (simp add: upsert_def)
  from assms(1) have ids: "distinct (map id_col (rows db))"
    by (simp add: unique_ok_def)
  have same: "map (\<lambda>r. if id_col r = id_col old then NEW else r) (rows db) =
          map (\<lambda>r. if r = old then NEW else r) (rows db)" for NEW
    using same_id_same_row[OF ids _ assms(2)] by (intro map_cong) auto
  show ?thesis
  proof (cases rule: update_row_cases[where to_tsvector = to_tsvector and vals = vals
        and db = db and i = "id_col old"])
    case (type_error e)
    with assms(5) up show ?thesis by simp
  next
    case (no_row converted)
    with assms(2) show ?thesis by simp
  next
    case (number NEW)
    with assms(5) up show ?thesis by simp
  next
    case (stored NEW)
    with up same[of NEW] show ?thesis by simp
  qed
qed

lemma insert_row_taken_refused:
  assumes "numbers_fit db" "number_taken (rows db) (company_number vals)"
  shows "fst (insert_row to_tsvector db vals) \<noteq> None"
    and "rows (snd (insert_row to_tsvector db vals)) = rows db"
proof -
  from assms(2) obtain k where k: "company_number vals = Some k" "k \<in> set (numbers (rows db))"
    by (auto simp: number_taken_iff)
  with assms(1) have "length k \<le> 10"
    by (simp add: numbers_fit_def list_all_iff)
  with k(1) have v: "varchar 10 (company_number (vals\<lparr>id_col := id_seq db + 1\<rparr>)) = Inr (Some k)"
    by (simp add: varchar_fits)
  have "fst (insert_row to_tsvector db vals) \<noteq> None \<and>
        rows (snd (insert_row to_tsvector db vals)) = rows db"
  proof (cases rule: insert_row_cases[where to_tsvector = to_tsvector and vals = vals
        and db = db])
    case (stored NEW)
    from before_write_number(1)[OF stored(1)] v have "company_number NEW = Some k"
      by simp
    with k(2) stored(4) show ?thesis
      by (simp add: number_taken_iff)
  qed simp_all
  then show "fst (insert_row to_tsvector db vals) \<noteq> None"
    and "rows (snd (insert_row to_tsvector db vals)) = rows db"
    by simp_all
qed

subsection \<open>Ingesting a dataset a second time\<close>

lemma before_write_passed:
  assumes "before_insert_or_update to_tsvector (vals\<lparr>id_col := i\<rparr>) = Inr NEW"
  shows "\<not> (\<exists>e. column_types vals = Inl e)"
    and "varchar 10 (company_number vals) = Inr (company_number NEW)"
  using assms before_write_number(1)[OF assms]
  by (auto simp: before_insert_or_update_def column_types_id_col split: sum.splits)

lemma upsert_accounted_length:
  assumes "accounted db vals"
  shows "length (rows (snd (upsert to_tsvector db vals))) = length (rows db)"
proof (cases "find (\<lambda>r. company_number vals \<noteq> None \<and> company_number r = company_number vals)
    (rows db)")
  case (Some r)
  then show ?thesis
    by (simp add: upsert_def update_row_length)
next
  case None
  then have up: "upsert to_tsvector db vals = insert_row to_tsvector db vals"
    by (simp add: upsert_def)
  show ?thesis
  proof (cases rule: insert_row_cases[where to_tsvector = to_tsvector and vals = vals
        and db = db])
    case (stored NEW)
    from before_write_passed[OF stored(1)] stored(2) assms
    obtain k where "company_number NEW = Some k" "k \<in> set (numbers (rows db))"
      by (auto simp: accounted_def)
    with stored(4) show ?thesis
      by (simp add: number_taken_iff)
  qed (simp_all add: up)
qed

lemma upsert_accounts:
  assumes "ids_from_seq db" "company_number vals \<noteq> None"
  shows "accounted (snd (upsert to_tsvector db vals)) vals"
proof (cases "find (\<lambda>r. company_number vals \<noteq> None \<and> company_number r = company_number vals)
    (rows db)")
  case None
  then have up: "upsert to_tsvector db vals = insert_row to_tsvector db vals"
    by (simp add: upsert_def)
  show ?thesis
  proof (cases rule: insert_row_cases[where to_tsvector = to_tsvector and vals = vals
        and db = db])
    case (type_error e)
    then show ?thesis
      by (simp add: accounted_def)
  next
    case (exhausted converted)
    with up show ?thesis
      by (simp add: accounted_def)
  next
    case (pkey NEW)
    with ids_from_seq_fresh[OF assms(1)] show ?thesis by simp
  next
    case (number NEW)
    from number(4) obtain k where "company_number NEW = Some k" "k \<in> set (numbers (rows db))"
      by (auto simp: number_taken_iff)
    with before_write_passed(2)[OF number(1)] number(5) up show ?thesis
      by (auto simp: accounted_def)
  next
    case (stored NEW)
    from before_write_passed(2)[OF stored(1)] assms(2)
    obtain k where "company_number NEW = Some k"
      by (cases "company_number NEW") (auto simp: varchar_None_iff)
    with before_write_passed(2)[OF stored(1)] stored(5) up show ?thesis
      by (auto simp: accounted_def numbers_append numbers_single)
  qed
next
  case (Some r)
  then have up: "upsert to_tsvector db vals = update_row to_tsvector db (id_col r) vals"
    by (simp add: upsert_def)
  note r = find_number_Some[OF Some]
  show ?thesis
  proof (cases rule: update_row_cases[where to_tsvector = to_tsvector and vals = vals
        and db = db and i = "id_col r"])
    case (type_error e)
    then show ?thesis
      by (simp add: accounted_def)
  next
    case (no_row converted)
    with r(1) show ?thesis by simp
  next
    case (number NEW)
    from number(3) obtain k where "company_number NEW = Some k"
      "k \<in> set (numbers (filter (\<lambda>x. id_col x \<noteq> id_col r) (rows db)))"
      by (auto simp: number_taken_iff)
    then have "company_number NEW = Some k" "k \<in> set (numbers (rows db))"
      by (auto simp: in_numbers_iff)
    with before_write_passed(2)[OF number(2)] number(4) up show ?thesis
      by (auto simp: accounted_def)
  next
    case (stored NEW)
    from before_write_passed(2)[OF stored(2)] assms(2)
    obtain k where k: "company_number NEW = Some k"
      by (cases "company_number NEW") (auto simp: varchar_None_iff)
    from r(1) have "NEW \<in> set (map (\<lambda>x. if id_col x = id_col r then NEW else x) (rows db))"
      by force
    with k have "k \<in> set (numbers (map (\<lambda>x. if id_col x = id_col r then NEW else x) (rows db)))"
      unfolding in_numbers_iff by blast
    with before_write_passed(2)[OF stored(2)] stored(4) up k show ?thesis
      by (auto simp: accounted_def)
  qed
qed

lemma upsert_numbers_mono:
  assumes "table_ok db"
  shows "set (numbers (rows db)) \<subseteq> set (numbers (rows (snd (upsert to_tsvector db vals))))"
proof (cases "find (\<lambda>r. company_number vals \<noteq> None \<and> company_number r = company_number vals)
    (rows db)")
  case None
  then have up: "upsert to_tsvector db vals = insert_row to_tsvector db vals"
    by (simp add: upsert_def)
  show ?thesis
    by (cases rule: insert_row_cases[where to_tsvector = to_tsvector and vals = vals
          and db = db]) (auto simp: up numbers_append)
next
  case (Some r)
  then have up: "upsert to_tsvector db vals = update_row to_tsvector db (id_col r) vals"
    by (simp add: upsert_def)
  note r = find_number_Some[OF Some]
  from assms have ids: "distinct (map id_col (rows db))" and fit: "numbers_fit db"
    by (simp_all add: table_ok_def unique_ok_def)
  show ?thesis
  proof (cases rule: update_row_cases[where to_tsvector = to_tsvector and vals = vals
        and db = db and i = "id_col r"])
    case (stored NEW)
    from r(3) obtain k where k: "company_number vals = Some k"
      by auto
    with r(1,2) fit have "length k \<le> 10"
      by (auto simp: numbers_fit_iff)
    with before_write_passed(2)[OF stored(2)] k have new: "company_number NEW = Some k"
      by (simp add: varchar_fits)
    let ?rs' = "map (\<lambda>x. if id_col x = id_col r then NEW else x) (rows db)"
    have "k0 \<in> set (numbers ?rs')" if "k0 \<in> set (numbers (rows db))" for k0
    proof -
      from that obtain x where x: "x \<in> set (rows db)" "company_number x = Some k0"
        by (auto simp: in_numbers_iff)
      show ?thesis
      proof (cases "id_col x = id_col r")
        case True
        with same_id_same_row[OF ids x(1) r(1)] have "x = r" by simp
        with x(2) r(2) k have "k0 = k" by simp
        moreover from r(1) have "NEW \<in> set ?rs'" by force
        ultimately show ?thesis
          using new unfolding in_numbers_iff by blast
      next
        case False
        with x(1) have "x \<in> set ?rs'" by force
        with x(2) show ?thesis
          unfolding in_numbers_iff by blast
      qed
    qed
    with stored(4) up show ?thesis
      by auto
  qed (simp_all add: up)
qed

lemma upsert_accounted_mono:
  assumes "table_ok db" "accounted db w"
  shows "accounted (snd (upsert to_tsvector db vals)) w"
  using assms(2) upsert_numbers_mono[OF assms(1), of to_tsvector vals]
    upsert_id_seq_mono[of db to_tsvector vals]
  unfolding accounted_def by fastforce

lemma ingest_accounted_mono:
  assumes "table_ok db" "accounted db w"
  shows "accounted (ingest to_tsvector db dataset) w"
  using assms
  by (induction dataset arbitrary: db)
    (simp_all add: ingest_Nil ingest_Cons upsert_table_ok upsert_accounted_mono)

lemma ingest_accounts:
  assumes "table_ok db" "w \<in> set dataset" "company_number w \<noteq> None"
  shows "accounted (ingest to_tsvector db dataset) w"
  using assms
proof (induction dataset arbitrary: db)
  case Nil
  then show ?case by simp
next
  case (Cons vals dataset)
  let ?db' = "snd (upsert to_tsvector db vals)"
  have ok: "table_ok ?db'"
    using Cons.prems(1) by (rule upsert_table_ok)
  show ?case
  proof (cases "w = vals")
    case True
    from Cons.prems(1) have "ids_from_seq db"
      by (simp add: table_ok_def)
    with Cons.prems(3) True have "accounted ?db' w"
      by (simp add: upsert_accounts)
    with ok show ?thesis
      by (simp add: ingest_Cons ingest_accounted_mono)
  next
    case False
    with Cons.prems(2) have "w \<in> set dataset" by simp
    with Cons.IH[OF ok] Cons.prems(3) show ?thesis
      by (simp add: ingest_Cons)
  qed
qed

lemma ingest_accounted_length:
  assumes "table_ok db" "\<And>w. w \<in> set dataset \<Longrightarrow> accounted db w"
  shows "length (rows (ingest to_tsvector db dataset)) = length (rows db)"
  using assms
proof (induction dataset arbitrary: db)
  case Nil
  then show ?case by (simp add: ingest_Nil)
next
  case (Cons vals dataset)
  let ?db' = "snd (upsert to_tsvector db vals)"
  have ok: "table_ok ?db'"
    using Cons.prems(1) by (rule upsert_table_ok)
  have "accounted ?db' w" if "w \<in> set dataset" for w
    using that Cons.prems by (simp add: upsert_accounted_mono)
  with Cons.IH[OF ok] have "length (rows (ingest to_tsvector ?db' dataset)) = length (rows ?db')"
    by simp
  moreover have "length (rows ?db') = length (rows db)"
    using Cons.prems(2)[of vals] by (simp add: upsert_accounted_length)
  ultimately show ?case
    by (simp add: ingest_Cons)
qed

lemma reingest_length:
  assumes "table_ok db" "list_all (\<lambda>w. company_number w \<noteq> None) dataset"
  shows "length (rows (ingest to_tsvector (ingest to_tsvector db dataset) dataset)) =
           length (rows (ingest to_tsvector db dataset))"
proof (rule ingest_accounted_length)
  show "table_ok (ingest to_tsvector db dataset)"
    using assms(1) by (rule ingest_table_ok)
  show "accounted (ingest to_tsvector db dataset) w" if "w \<in> set dataset" for w
    using that assms by (simp add: ingest_accounts list_all_iff)
qed

subsection \<open>C2: one record for each company number\<close>

text \<open>
  Claim C2. At most one stored record carries a given company number: the primary key and
  the \<^verbatim>\<open>UNIQUE\<close> constraint hold of the empty table and are kept by an insert, by an update,
  by the sink's upsert and by a whole ingestion, and the storage refuses the plain insert of
  a number it holds. The upsert of a record whose number is in the table adds no row; when it
  succeeds, the row with that number is replaced, in its place and under its \<open>id\<close>, by the
  record's values as the storage converts them. Ingesting a dataset again, every record of
  it carrying a number, leaves the number of rows as the first ingestion left it.
\<close>

theorem company_number_unique_under_upsert:
  "table_ok (empty_db :: 'v companies_db)
   \<and> (unique_ok db \<longrightarrow> length (filter (\<lambda>r. company_number r = Some k) (rows db)) \<le> 1)
   \<and> (unique_ok db \<longrightarrow>
        unique_ok (snd (insert_row (to_tsvector :: string \<Rightarrow> string \<Rightarrow> 'v) db vals)) \<and>
        unique_ok (snd (update_row to_tsvector db i vals)) \<and>
        unique_ok (snd (upsert to_tsvector db vals)) \<and>
        unique_ok (ingest to_tsvector db dataset))
   \<and> (numbers_fit db \<and> number_taken (rows db) (company_number vals) \<longrightarrow>
        fst (insert_row to_tsvector db vals) \<noteq> None \<and>
        rows (snd (insert_row to_tsvector db vals)) = rows db)
   \<and> (number_taken (rows db) (company_number vals) \<longrightarrow>
        length (rows (snd (upsert to_tsvector db vals))) = length (rows db))
   \<and> (unique_ok db \<and> old \<in> set (rows db) \<and> company_number old = company_number vals \<and>
       company_number vals \<noteq> None \<and> fst (upsert to_tsvector db vals) = None \<longrightarrow>
        (\<exists>NEW. before_insert_or_update to_tsvector (vals\<lparr>id_col := id_col old\<rparr>) = Inr NEW \<and>
           rows (snd (upsert to_tsvector db vals)) =
             map (\<lambda>r. if r = old then NEW else r) (rows db)))
   \<and> (table_ok db \<and> list_all (\<lambda>w. company_number w \<noteq> None) dataset \<longrightarrow>
        length (rows (ingest to_tsvector (ingest to_tsvector db dataset) dataset)) =
          length (rows (ingest to_tsvector db dataset)))"
proof -
  have "table_ok (empty_db :: 'v companies_db)"
    by (simp add: table_ok_def unique_ok_def numbers_fit_def ids_from_seq_def numbers_def
          empty_db_def)
  moreover have "length (filter (\<lambda>r. company_number r = Some k) (rows db)) \<le> 1"
    if "unique_ok db"
    using that at_most_one_row[of "rows db" k] by (simp add: unique_ok_def)
  ultimately show ?thesis
    using insert_row_unique_ok[where to_tsvector = to_tsvector and db = db and vals = vals]
      update_row_unique_ok[where to_tsvector = to_tsvector and db = db and vals = vals
        and i = i]
      upsert_unique_ok[where to_tsvector = to_tsvector and db = db and vals = vals]
      ingest_unique_ok[where to_tsvector = to_tsvector and db = db and dataset = dataset]
      insert_row_taken_refused[where to_tsvector = to_tsvector and db = db and vals = vals]
      upsert_taken_length[where to_tsvector = to_tsvector and db = db and vals = vals]
      upsert_overwrites[where to_tsvector = to_tsvector and db = db and vals = vals
        and old = old]
      reingest_length[where to_tsvector = to_tsvector and db = db and dataset = dataset]
    by blast
qed

lemma acme_upserted:
  "upsert plain_tsvector acme_db acme_renamed =
     (None, \<lparr>rows = [acme_stored ''Acme Holdings''], id_seq = 1\<rparr>)"
proof -
  have "find (\<lambda>r. company_number acme_renamed \<noteq> None \<and>
                  company_number r = company_number acme_renamed) (rows acme_db) =
          Some (acme_stored ''Acme Ltd'')"
    by (simp add: acme_db_eq acme_renamed_def acme_stored_def null_vals_def)
  moreover have "id_col (acme_stored ''Acme Ltd'') = 1"
    by (simp add: acme_stored_def null_vals_def)
  ultimately show ?thesis
    by (simp add: upsert_def acme_updated)
qed

theorem company_number_unique_under_upsert_witness:
  "table_ok (empty_db :: string companies_db)
   \<and> list_all (\<lambda>w. company_number w \<noteq> None) [acme_vals, long_vals, acme_renamed]
   \<and> length (rows (ingest plain_tsvector
        (ingest plain_tsvector empty_db [acme_vals, long_vals, acme_renamed])
        [acme_vals, long_vals, acme_renamed])) =
      length (rows (ingest plain_tsvector empty_db [acme_vals, long_vals, acme_renamed]))
   \<and> unique_ok acme_db \<and> numbers_fit acme_db
   \<and> length (filter (\<lambda>r. company_number r = Some ''00000001'') (rows acme_db)) \<le> 1
   \<and> unique_ok (snd (upsert plain_tsvector acme_db acme_renamed))
   \<and> number_taken (rows acme_db) (company_number acme_renamed)
   \<and> fst (insert_row plain_tsvector acme_db acme_renamed) \<noteq> None
   \<and> length (rows (snd (upsert plain_tsvector acme_db acme_renamed))) = length (rows acme_db)
   \<and> acme_stored ''Acme Ltd'' \<in> set (rows acme_db)
   \<and> company_number (acme_stored ''Acme Ltd'') = company_number acme_renamed
   \<and> company_number acme_renamed \<noteq> None
   \<and> fst (upsert plain_tsvector acme_db acme_renamed) = None
   \<and> (\<exists>NEW. before_insert_or_update plain_tsvector
               (acme_renamed\<lparr>id_col := id_col (acme_stored ''Acme Ltd'')\<rparr>) = Inr NEW \<and>
            rows (snd (upsert plain_tsvector acme_db acme_renamed)) =
              map (\<lambda>r. if r = acme_stored ''Acme Ltd'' then NEW else r) (rows acme_db))
   \<and> rows (snd (upsert plain_tsvector acme_db acme_renamed)) = [acme_stored ''Acme Holdings'']"
proof -
  have data: "list_all (\<lambda>w. company_number w \<noteq> None) [acme_vals, long_vals, acme_renamed]"
    by (simp add: acme_vals_def long_vals_def acme_renamed_def null_vals_def)
  have uniq: "unique_ok acme_db" and fit: "numbers_fit acme_db"
    by (simp_all add: unique_ok_def numbers_fit_def numbers_def acme_db_eq acme_stored_def
          null_vals_def)
  have taken: "number_taken (rows acme_db) (company_number acme_renamed)"
    by (simp add: number_taken_def acme_db_eq acme_stored_def acme_renamed_def null_vals_def)
  have old: "acme_stored ''Acme Ltd'' \<in> set (rows acme_db)"
    "company_number (acme_stored ''Acme Ltd'') = company_number acme_renamed"
    "company_number acme_renamed \<noteq> None"
    by (simp_all add: acme_db_eq acme_stored_def acme_renamed_def null_vals_def)
  have ups: "fst (upsert plain_tsvector acme_db acme_renamed) = None"
    "rows (snd (upsert plain_tsvector acme_db acme_renamed)) = [acme_stored ''Acme Holdings'']"
    by (simp_all add: acme_upserted)
  note main = company_number_unique_under_upsert[where to_tsvector = plain_tsvector]
  from main[where db = empty_db and dataset = "[acme_vals, long_vals, acme_renamed]"] data
  have a: "table_ok (empty_db :: string companies_db)"
    "length (rows (ingest plain_tsvector
        (ingest plain_tsvector empty_db [acme_vals, long_vals, acme_renamed])
        [acme_vals, long_vals, acme_renamed])) =
      length (rows (ingest plain_tsvector empty_db [acme_vals, long_vals, acme_renamed]))"
    by blast+
  from main[where db = acme_db and vals = acme_renamed and k = "''00000001''"
      and old = "acme_stored ''Acme Ltd''"] uniq fit taken old ups(1)
  have b: "length (filter (\<lambda>r. company_number r = Some ''00000001'') (rows acme_db)) \<le> 1"
    "unique_ok (snd (upsert plain_tsvector acme_db acme_renamed))"
    "fst (insert_row plain_tsvector acme_db acme_renamed) \<noteq> None"
    "length (rows (snd (upsert plain_tsvector acme_db acme_renamed))) = length (rows acme_db)"
    "\<exists>NEW. before_insert_or_update plain_tsvector
               (acme_renamed\<lparr>id_col := id_col (acme_stored ''Acme Ltd'')\<rparr>) = Inr NEW \<and>
            rows (snd (upsert plain_tsvector acme_db acme_renamed)) =
              map (\<lambda>r. if r = acme_stored ''Acme Ltd'' then NEW else r) (rows acme_db)"
    by blast+
  from data uniq fit taken old ups a b show ?thesis
    by blast
qed


end
